theory Spec2Isabelle
  imports Main "HOL-Library.AList"
begin

section \<open>The MTProto client session of \<^verbatim>\<open>ll_mtproto/client.py\<close>\<close>

text \<open>
  The class \<^verbatim>\<open>Client\<close> is embedded as a record of its fields, each method as a function
  that takes the client and returns the client it leaves behind, together with what the
  method returns or raises. A Python exception does not undo the assignments made before
  it, so every function returns the pair of an outcome and the client at that point.

  The coroutines are embedded sequentially: an \<^verbatim>\<open>await\<close> on a write future is answered on
  the spot from a list of outcomes carried by the client, and no other task runs in
  between. The event loop's objects (futures, timer handles) live in explicit stores.
\<close>

subsection \<open>Exceptions and outcomes\<close>

datatype exn =
    RuntimeError
  | InterruptedError
  | InvalidStateError
  | AttributeError
  | KeyError
  | OSError
  | OtherWriteError

datatype 'a outcome = Return 'a | Raise exn

text \<open>Sequencing of two steps: the second runs only when the first has not raised.\<close>

definition then_do :: "'a outcome \<times> 's \<Rightarrow> ('a \<Rightarrow> 's \<Rightarrow> 'b outcome \<times> 's) \<Rightarrow> 'b outcome \<times> 's" where
  "then_do r f = (case r of (Return a, s) \<Rightarrow> f a s | (Raise e, s) \<Rightarrow> (Raise e, s))"

subsection \<open>TL values and server messages\<close>

datatype tl_val = Str string | Num int | NumList "int list"

type_synonym tl_dict = "(string \<times> tl_val) list"

text \<open>The \<^verbatim>\<open>result\<close> field of an \<^verbatim>\<open>rpc_result\<close>: a structure, or a \<^verbatim>\<open>gzip_packed\<close> wrapper
  whose \<^verbatim>\<open>packed_data\<close> is the structure. A structure stands for its \<^verbatim>\<open>get_dict()\<close>.\<close>

datatype tl_result = Plain tl_dict | GzipResult tl_dict

datatype body =
    RpcResult int tl_result
  | Pong int int
  | BadServerSalt int int
  | BadMsgNotification int int
  | MsgContainer "message list"
  | GzipPacked body
  | OtherBody string
and message = Message (msg_id: int) (seqno: int) (body: body)

text \<open>
  \<^verbatim>\<open>RpcResult req_msg_id result\<close>, \<^verbatim>\<open>Pong msg_id ping_id\<close>,
  \<^verbatim>\<open>BadServerSalt bad_msg_id new_server_salt\<close>, \<^verbatim>\<open>BadMsgNotification bad_msg_id error_code\<close>.
\<close>

subsection \<open>Event-loop objects\<close>

datatype future = Pending | Result tl_dict | Exception exn

datatype callback = Disconnect | CreateNewPingRequestSync | DeletePendingRequest int

record timer_handle =
  delay :: nat
  callback :: callback
  cancelled :: bool

record pending_request =
  response :: nat
  request :: tl_dict

text \<open>What awaiting a write future gives: completion, an exception of the classes that
  \<^verbatim>\<open>_rpc_call\<close> catches (\<^verbatim>\<open>OSError\<close>, \<^verbatim>\<open>CancelledError\<close>, \<^verbatim>\<open>KeyboardInterrupt\<close>), or any other
  exception.\<close>

datatype write_outcome = WriteOk | WriteInterrupted | WriteFailed

text \<open>Modelled from the spec: the transport class \<^verbatim>\<open>MTProto\<close> (network/mtproto.py). Of the
  transport the client reads and sets the server salt; \<^verbatim>\<open>get_server_salt\<close> yields the salt
  held, \<^verbatim>\<open>write\<close> assigns an increasing message id on the spot and hands back a write
  future.\<close>

record transport =
  server_salt :: int

record task =
  task_done :: bool

subsection \<open>The client\<close>

record client =
  mtproto :: "transport option"
  msgids_to_ack :: "int list"
  last_time_acks_flushed :: int
  last_seqno :: int
  stable_seqno :: bool
  seqno_increment :: int
  mtproto_loop_task :: "task option"
  pending_requests :: "(int \<times> pending_request) list"
  pending_pongs :: "(int \<times> nat) list"
  pending_ping_request :: "nat option"
  futures :: "nat \<Rightarrow> future"
  next_future :: nat
  timers :: "timer_handle list"
  written :: "(int \<times> int \<times> tl_dict) list"
  next_msg_id :: int
  write_outcomes :: "write_outcome list"
  random_ids :: "int list"
  clock :: int
  stopped_transports :: "transport list"
  cancelled_tasks :: "task list"

text \<open>
  The first ten fields are the attributes of \<^verbatim>\<open>Client\<close> (the dictionaries keep their
  insertion order, as Python's do). The others are the surroundings: the store of futures
  (\<^verbatim>\<open>loop.create_future()\<close> takes the next index), the timer handles made by
  \<^verbatim>\<open>loop.call_later\<close> (a handle is its index), the messages handed to \<^verbatim>\<open>MTProto.write\<close> as
  (message id, seqno, fields), the message id the transport assigns next, what the awaits
  of the coming writes give, what \<^verbatim>\<open>random.randrange\<close> returns next, what \<^verbatim>\<open>time.time()\<close>
  reads, and the transports stopped and tasks cancelled so far.
\<close>

definition init_client :: client where
  "init_client = \<lparr>
     mtproto = None, msgids_to_ack = [], last_time_acks_flushed = 0, last_seqno = 0,
     stable_seqno = False, seqno_increment = 1, mtproto_loop_task = None,
     pending_requests = [], pending_pongs = [], pending_ping_request = None,
     futures = (\<lambda>_. Pending), next_future = 0, timers = [], written = [],
     next_msg_id = 1000, write_outcomes = [], random_ids = [], clock = 0,
     stopped_transports = [], cancelled_tasks = [] \<rparr>"

subsection \<open>Sequence allocator\<close>

definition get_next_odd_seqno :: "client \<Rightarrow> int \<times> client" where
  "get_next_odd_seqno s =
     (let s' = s\<lparr>last_seqno := ((last_seqno s + 1) div 2) * 2 + 1\<rparr>
      in (last_seqno s', s'))"

definition get_next_even_seqno :: "client \<Rightarrow> int \<times> client" where
  "get_next_even_seqno s =
     (let s' = s\<lparr>last_seqno := (last_seqno s div 2 + 1) * 2\<rparr>
      in (last_seqno s', s'))"

definition update_last_seqno_from_incoming_message :: "client \<Rightarrow> message \<Rightarrow> client" where
  "update_last_seqno_from_incoming_message s m = s\<lparr>last_seqno := max (last_seqno s) (seqno m)\<rparr>"

subsection \<open>Futures, timers, transport\<close>

definition create_future :: "client \<Rightarrow> nat \<times> client" where
  "create_future s =
     (next_future s,
      s\<lparr>futures := (futures s)(next_future s := Pending), next_future := Suc (next_future s)\<rparr>)"

definition set_result :: "client \<Rightarrow> nat \<Rightarrow> tl_dict \<Rightarrow> unit outcome \<times> client" where
  "set_result s f v =
     (if futures s f \<noteq> Pending then (Raise InvalidStateError, s)
      else (Return (), s\<lparr>futures := (futures s)(f := Result v)\<rparr>))"

definition call_later :: "client \<Rightarrow> nat \<Rightarrow> callback \<Rightarrow> nat \<times> client" where
  "call_later s d cb =
     (length (timers s),
      s\<lparr>timers := timers s @ [\<lparr>delay = d, callback = cb, cancelled = False\<rparr>]\<rparr>)"

definition cancel_timer :: "client \<Rightarrow> nat \<Rightarrow> client" where
  "cancel_timer s h = s\<lparr>timers := (timers s)[h := (timers s ! h)\<lparr>cancelled := True\<rparr>]\<rparr>"

definition randrange :: "client \<Rightarrow> int \<times> client" where
  "randrange s =
     (case random_ids s of [] \<Rightarrow> (0, s) | r # rs \<Rightarrow> (r, s\<lparr>random_ids := rs\<rparr>))"

definition next_write_outcome :: "client \<Rightarrow> write_outcome" where
  "next_write_outcome s = (case write_outcomes s of [] \<Rightarrow> WriteOk | w # ws \<Rightarrow> w)"

text \<open>\<^verbatim>\<open>self._mtproto.write(seqno, **fields)\<close>: an \<^verbatim>\<open>AttributeError\<close> when there is no transport.\<close>

definition mtproto_write ::
  "client \<Rightarrow> int \<Rightarrow> tl_dict \<Rightarrow> (int \<times> write_outcome) outcome \<times> client" where
  "mtproto_write s sq kwargs =
     (case mtproto s of
        None \<Rightarrow> (Raise AttributeError, s)
      | Some t \<Rightarrow>
          (Return (next_msg_id s, next_write_outcome s),
           s\<lparr>written := written s @ [(next_msg_id s, sq, kwargs)],
             next_msg_id := next_msg_id s + 1,
             write_outcomes := tl (write_outcomes s)\<rparr>))"

text \<open>\<^verbatim>\<open>await asyncio.wait_for(write_future, 120)\<close> outside a \<^verbatim>\<open>try\<close>.\<close>

definition await_write :: "client \<Rightarrow> write_outcome \<Rightarrow> unit outcome \<times> client" where
  "await_write s w =
     (case w of
        WriteOk \<Rightarrow> (Return (), s)
      | WriteInterrupted \<Rightarrow> (Raise OSError, s)
      | WriteFailed \<Rightarrow> (Raise OtherWriteError, s))"

subsection \<open>Ack batcher\<close>

definition flush_msgids_to_ack :: "client \<Rightarrow> unit outcome \<times> client" where
  "flush_msgids_to_ack s =
     (let s1 = s\<lparr>last_time_acks_flushed := clock s\<rparr> in
      if msgids_to_ack s1 = [] \<or> \<not> stable_seqno s1 then (Return (), s1)
      else
        (let (sq, s2) = get_next_even_seqno s1 in
         then_do (mtproto_write s2 sq
                    [(''_cons'', Str ''msgs_ack''), (''msg_ids'', NumList (msgids_to_ack s2))])
           (\<lambda>(mid, w) s3.
              then_do (await_write s3 w) (\<lambda>_ s4. (Return (), s4\<lparr>msgids_to_ack := []\<rparr>)))))"

definition flush_msgids_to_ack_if_needed :: "client \<Rightarrow> unit outcome \<times> client" where
  "flush_msgids_to_ack_if_needed s =
     (if length (msgids_to_ack s) \<ge> 32 \<or> clock s - last_time_acks_flushed s > 10
      then flush_msgids_to_ack s else (Return (), s))"

subsection \<open>Pending registry\<close>

definition delete_pending_pong :: "client \<Rightarrow> int \<Rightarrow> bool \<Rightarrow> client" where
  "delete_pending_pong s ping_id remove =
     (case map_of (pending_pongs s) ping_id of
        None \<Rightarrow> s
      | Some h \<Rightarrow>
          (let s1 = cancel_timer s h in
           if remove then s1\<lparr>pending_pongs := AList.delete ping_id (pending_pongs s1)\<rparr> else s1))"

definition delete_pending_request :: "client \<Rightarrow> int \<Rightarrow> bool \<Rightarrow> client" where
  "delete_pending_request s mid remove =
     (case map_of (pending_requests s) mid of
        None \<Rightarrow> s
      | Some p \<Rightarrow>
          (let s1 = (if futures s (response p) = Pending
                     then s\<lparr>futures := (futures s)(response p := Exception InterruptedError)\<rparr>
                     else s) in
           if remove then s1\<lparr>pending_requests := AList.delete mid (pending_requests s1)\<rparr> else s1))"

definition delete_all_pending_pongs :: "client \<Rightarrow> client" where
  "delete_all_pending_pongs s =
     (fold (\<lambda>k s'. delete_pending_pong s' k False) (map fst (pending_pongs s)) s)
        \<lparr>pending_pongs := []\<rparr>"

definition delete_all_pending_requests :: "client \<Rightarrow> client" where
  "delete_all_pending_requests s =
     (fold (\<lambda>k s'. delete_pending_request s' k False) (map fst (pending_requests s)) s)
        \<lparr>pending_requests := []\<rparr>"

definition delete_all_pending_data :: "client \<Rightarrow> client" where
  "delete_all_pending_data s =
     (let s1 = delete_all_pending_requests (delete_all_pending_pongs s);
          s2 = (case pending_ping_request s1 of None \<Rightarrow> s1 | Some h \<Rightarrow> cancel_timer s1 h)
      in s2\<lparr>pending_ping_request := None\<rparr>)"

subsection \<open>Ping watchdog and session start\<close>

definition create_new_ping_request :: "client \<Rightarrow> unit outcome \<times> client" where
  "create_new_ping_request s =
     (let (new_random_ping_id, s1) = randrange s;
          (sq, s2) = get_next_odd_seqno s1;
          req = [(''_cons'', Str ''ping''), (''ping_id'', Num new_random_ping_id)];
          (fut, s3) = create_future s2;
          pending = \<lparr>response = fut, request = req\<rparr>;
          (h, s4) = call_later s3 10 Disconnect;
          s5 = s4\<lparr>pending_pongs := AList.update new_random_ping_id h (pending_pongs s4)\<rparr>
      in then_do (mtproto_write s5 sq req)
           (\<lambda>(message_id, w) s6.
              await_write
                (s6\<lparr>pending_requests := AList.update message_id pending (pending_requests s6)\<rparr>) w))"

text \<open>\<^verbatim>\<open>self._mtproto_loop_task.cancel(); self._mtproto.stop()\<close> under
  \<^verbatim>\<open>if self._mtproto is not None\<close>: an \<^verbatim>\<open>AttributeError\<close> when there is a transport and no
  task.\<close>

definition cancel_and_stop :: "client \<Rightarrow> unit outcome \<times> client" where
  "cancel_and_stop s =
     (case mtproto s of
        None \<Rightarrow> (Return (), s)
      | Some t \<Rightarrow>
          (case mtproto_loop_task s of
             None \<Rightarrow> (Raise AttributeError, s)
           | Some tk \<Rightarrow>
               (Return (),
                s\<lparr>cancelled_tasks := cancelled_tasks s @ [tk],
                  stopped_transports := stopped_transports s @ [t]\<rparr>)))"

text \<open>Modelled from the spec: the constructor of \<^verbatim>\<open>MTProto\<close> (network/mtproto.py); a new
  transport holds no salt yet, which the client's test against zero reads as 0.\<close>

definition new_transport :: transport where
  "new_transport = \<lparr>server_salt = 0\<rparr>"

definition start_mtproto_loop :: "client \<Rightarrow> unit outcome \<times> client" where
  "start_mtproto_loop s =
     then_do (cancel_and_stop (delete_all_pending_data s))
       (\<lambda>_ s1. create_new_ping_request
          (s1\<lparr>mtproto := Some new_transport,
              mtproto_loop_task := Some \<lparr>task_done = False\<rparr>\<rparr>))"

subsection \<open>Session controller\<close>

text \<open>What \<^verbatim>\<open>_rpc_call\<close> returns: nothing in no-response mode; otherwise the result the
  response future already holds, or the future the caller is left waiting on.\<close>

datatype call_result = NoResponse | Got tl_dict | Awaiting nat

text \<open>\<^verbatim>\<open>if self._mtproto is None or self._mtproto_loop_task.done()\<close>\<close>

definition loop_not_running :: "client \<Rightarrow> bool outcome \<times> client" where
  "loop_not_running s =
     (case mtproto s of
        None \<Rightarrow> (Return True, s)
      | Some t \<Rightarrow>
          (case mtproto_loop_task s of
             None \<Rightarrow> (Raise AttributeError, s)
           | Some tk \<Rightarrow> (Return (task_done tk), s)))"

text \<open>\<^verbatim>\<open>await asyncio.wait_for(pending_request.response, 600)\<close>, as far as the call goes
  without another task running.\<close>

definition await_response :: "client \<Rightarrow> nat \<Rightarrow> call_result outcome \<times> client" where
  "await_response s f =
     (case futures s f of
        Pending \<Rightarrow> (Return (Awaiting f), s)
      | Result d \<Rightarrow> (Return (Got d), s)
      | Exception e \<Rightarrow> (Raise e, s))"

text \<open>The method \<^verbatim>\<open>_rpc_call\<close>.\<close>

definition internal_rpc_call ::
  "client \<Rightarrow> pending_request \<Rightarrow> bool \<Rightarrow> call_result outcome \<times> client" where
  "internal_rpc_call s pending no_response =
     then_do (loop_not_running s) (\<lambda>restart s0.
     then_do (if restart then start_mtproto_loop s0 else (Return (), s0)) (\<lambda>_ s1.
     then_do (flush_msgids_to_ack s1) (\<lambda>_ s2.
       (let (sq, s3) = get_next_odd_seqno s2 in
        then_do (mtproto_write s3 sq (request pending)) (\<lambda>(message_id, w) s4.
          (case map_of (request pending) ''_cons'' of
             None \<Rightarrow> (Raise KeyError, s4)
           | Some constructor \<Rightarrow>
               (let s5 = s4\<lparr>pending_requests :=
                             AList.update message_id pending (pending_requests s4)\<rparr> in
                then_do
                  (case w of
                     WriteOk \<Rightarrow> (Return (), s5)
                   | WriteInterrupted \<Rightarrow> (Return (), delete_pending_request s5 message_id True)
                   | WriteFailed \<Rightarrow> (Raise OtherWriteError, s5))
                  (\<lambda>_ s6.
                     (let s7 = s6\<lparr>seqno_increment := seqno_increment s6 + 1\<rparr> in
                      if no_response
                      then (Return NoResponse,
                            snd (call_later s7 600 (DeletePendingRequest message_id)))
                      else await_response s7 (response pending))))))))))"

definition rpc_call :: "client \<Rightarrow> tl_dict \<Rightarrow> call_result outcome \<times> client" where
  "rpc_call s message =
     (if map_of message ''_cons'' = None then (Raise RuntimeError, s)
      else
        (let (fut, s1) = create_future s
         in internal_rpc_call s1 \<lparr>response = fut, request = message\<rparr> False))"

definition disconnect :: "client \<Rightarrow> unit outcome \<times> client" where
  "disconnect s =
     then_do (cancel_and_stop (delete_all_pending_data s))
       (\<lambda>_ s1. (Return (), s1\<lparr>mtproto := None, mtproto_loop_task := None\<rparr>))"

subsection \<open>Recovery policy\<close>

definition process_rpc_result :: "client \<Rightarrow> int \<Rightarrow> tl_result \<Rightarrow> unit outcome \<times> client" where
  "process_rpc_result s req_msg_id res =
     (let s1 = s\<lparr>stable_seqno := True\<rparr> in
      case map_of (pending_requests s1) req_msg_id of
        None \<Rightarrow> (Return (), s1)
      | Some pending \<Rightarrow>
          (let s2 = s1\<lparr>pending_requests := AList.delete req_msg_id (pending_requests s1)\<rparr>;
               d = (case res of GzipResult packed_data \<Rightarrow> packed_data | Plain r \<Rightarrow> r)
           in set_result s2 (response pending) d))"

definition process_pong :: "client \<Rightarrow> int \<Rightarrow> int \<Rightarrow> unit outcome \<times> client" where
  "process_pong s pong_msg_id ping_id =
     (let s1 = delete_pending_pong s ping_id True in
      then_do
        (case map_of (pending_requests s1) pong_msg_id of
           None \<Rightarrow> (Return (), s1)
         | Some pending \<Rightarrow> set_result s1 (response pending) [])
        (\<lambda>_ s2.
           (let (h, s3) = call_later s2 10 CreateNewPingRequestSync
            in (Return (), s3\<lparr>pending_ping_request := Some h\<rparr>))))"

text \<open>The re-submission shared by the two recoveries:
  \<^verbatim>\<open>bad_request = self._pending_requests[bad_msg_id]; del ...; await self._rpc_call(bad_request, no_response=True)\<close>\<close>

definition resend_bad_request :: "client \<Rightarrow> int \<Rightarrow> unit outcome \<times> client" where
  "resend_bad_request s bad_msg_id =
     (case map_of (pending_requests s) bad_msg_id of
        None \<Rightarrow> (Return (), s)
      | Some bad_request \<Rightarrow>
          then_do
            (internal_rpc_call
               (s\<lparr>pending_requests := AList.delete bad_msg_id (pending_requests s)\<rparr>)
               bad_request True)
            (\<lambda>_ s1. (Return (), s1)))"

definition process_bad_server_salt :: "client \<Rightarrow> int \<Rightarrow> int \<Rightarrow> unit outcome \<times> client" where
  "process_bad_server_salt s bad_msg_id new_server_salt =
     (case mtproto s of
        None \<Rightarrow> (Raise AttributeError, s)
      | Some t \<Rightarrow>
          (let s1 = (if server_salt t \<noteq> 0 then s\<lparr>stable_seqno := False\<rparr> else s);
               s2 = s1\<lparr>mtproto := Some (t\<lparr>server_salt := new_server_salt\<rparr>)\<rparr>
           in resend_bad_request s2 bad_msg_id))"

definition process_bad_msg_notification_msg_seqno_too_low ::
  "client \<Rightarrow> int \<Rightarrow> unit outcome \<times> client" where
  "process_bad_msg_notification_msg_seqno_too_low s bad_msg_id =
     (let s1 = s\<lparr>seqno_increment := min (2 ^ 31 - 1) (seqno_increment s * 2)\<rparr>;
          s2 = s1\<lparr>last_seqno := last_seqno s1 + seqno_increment s1\<rparr>
      in resend_bad_request s2 bad_msg_id)"

subsection \<open>Inbound dispatcher\<close>

definition process_telegram_message_body :: "client \<Rightarrow> body \<Rightarrow> unit outcome \<times> client" where
  "process_telegram_message_body s b =
     (case b of
        RpcResult req_msg_id res \<Rightarrow> process_rpc_result s req_msg_id res
      | Pong pong_msg_id ping_id \<Rightarrow> process_pong s pong_msg_id ping_id
      | BadServerSalt bad_msg_id new_server_salt \<Rightarrow>
          process_bad_server_salt s bad_msg_id new_server_salt
      | BadMsgNotification bad_msg_id error_code \<Rightarrow>
          (if error_code = 32 \<and> \<not> stable_seqno s
           then process_bad_msg_notification_msg_seqno_too_low s bad_msg_id
           else (Return (), s))
      | _ \<Rightarrow> (Return (), s))"

definition acknowledge_telegram_message :: "client \<Rightarrow> message \<Rightarrow> unit outcome \<times> client" where
  "acknowledge_telegram_message s m =
     (if seqno m mod 2 = 1
      then flush_msgids_to_ack (s\<lparr>msgids_to_ack := msgids_to_ack s @ [msg_id m]\<rparr>)
      else (Return (), s))"

text \<open>\<^verbatim>\<open>body = message.body.packed_data if message.body == "gzip_packed" else message.body\<close>\<close>

definition unpacked_body :: "message \<Rightarrow> body" where
  "unpacked_body m = (case body m of GzipPacked packed_data \<Rightarrow> packed_data | b \<Rightarrow> b)"

lemma unpacked_body_size:
  "unpacked_body m = MsgContainer ms \<Longrightarrow> size_list size ms < size m"
  by (cases m) (auto simp: unpacked_body_def split: body.splits)

text \<open>\<^verbatim>\<open>_process_telegram_message\<close>; \<open>process_messages\<close> is its loop
  \<^verbatim>\<open>for m in body.messages\<close>, which an exception leaves.\<close>

function process_telegram_message :: "client \<Rightarrow> message \<Rightarrow> unit outcome \<times> client"
  and process_messages :: "client \<Rightarrow> message list \<Rightarrow> unit outcome \<times> client" where
  "process_telegram_message s m =
     (let s1 = update_last_seqno_from_incoming_message s m in
      case unpacked_body m of
        MsgContainer messages \<Rightarrow> process_messages s1 messages
      | b \<Rightarrow> then_do (process_telegram_message_body s1 b)
                 (\<lambda>_ s2. acknowledge_telegram_message s2 m))"
| "process_messages s [] = (Return (), s)"
| "process_messages s (m # ms) =
     (case process_telegram_message s m of
        (Return _, s') \<Rightarrow> process_messages s' ms
      | (Raise e, s') \<Rightarrow> (Raise e, s'))"
  by pat_completeness auto
termination
  by (relation "measure (case_sum (\<lambda>p. size (snd p)) (\<lambda>p. size_list size (snd p)))")
     (auto dest: unpacked_body_size)

declare process_telegram_message.simps [simp del]

text \<open>One turn of \<^verbatim>\<open>_mtproto_loop\<close> on a message read: the bare \<^verbatim>\<open>except\<close> logs whatever
  the processing raises and the loop goes on.\<close>

definition mtproto_loop_step :: "client \<Rightarrow> message \<Rightarrow> client" where
  "mtproto_loop_step s m =
     snd (then_do (process_telegram_message s m) (\<lambda>_ s1. flush_msgids_to_ack_if_needed s1))"

text \<open>What the event loop runs when a timer that was not cancelled comes due.\<close>

definition run_callback :: "client \<Rightarrow> callback \<Rightarrow> unit outcome \<times> client" where
  "run_callback s cb =
     (case cb of
        Disconnect \<Rightarrow> disconnect s
      | CreateNewPingRequestSync \<Rightarrow> create_new_ping_request s
      | DeletePendingRequest message_id \<Rightarrow> (Return (), delete_pending_request s message_id True))"

subsection \<open>Driving the sequence allocator\<close>

datatype allocator_call = NextOdd | NextEven

definition allocate :: "allocator_call \<Rightarrow> client \<Rightarrow> int \<times> client" where
  "allocate c s = (case c of NextOdd \<Rightarrow> get_next_odd_seqno s | NextEven \<Rightarrow> get_next_even_seqno s)"

text \<open>A sequence of allocator calls, each recorded as (\<open>last_seqno\<close> before the call, the
  call, the value returned).\<close>

fun allocations :: "client \<Rightarrow> allocator_call list \<Rightarrow> (int \<times> allocator_call \<times> int) list" where
  "allocations s [] = []"
| "allocations s (c # cs) =
     (let (v, s') = allocate c s in (last_seqno s, c, v) # allocations s' cs)"

definition right_parity :: "allocator_call \<Rightarrow> int \<Rightarrow> bool" where
  "right_parity c v = (case c of NextOdd \<Rightarrow> odd v | NextEven \<Rightarrow> even v)"

subsection \<open>Example clients\<close>

definition idle_flush_client :: client where
  "idle_flush_client = init_client\<lparr>clock := 5\<rparr>"

definition ready_flush_client :: client where
  "ready_flush_client =
     init_client\<lparr>mtproto := Some new_transport,
                 mtproto_loop_task := Some \<lparr>task_done = False\<rparr>,
                 stable_seqno := True, msgids_to_ack := [11, 13], last_seqno := 3,
                 clock := 5\<rparr>"

text \<open>The response futures after every registered request has been interrupted.\<close>

definition interrupted_futures :: "client \<Rightarrow> nat \<Rightarrow> future" where
  "interrupted_futures s f =
     (if futures s f = Pending
         \<and> (\<exists>k \<in> fst ` set (pending_requests s).
               \<exists>p. map_of (pending_requests s) k = Some p \<and> response p = f)
      then Exception InterruptedError else futures s f)"

definition busy_client :: client where
  "busy_client =
     init_client\<lparr>mtproto := Some new_transport,
                 mtproto_loop_task := Some \<lparr>task_done = False\<rparr>,
                 pending_requests := [(1000, \<lparr>response = 0, request = [(''_cons'', Str ''ping'')]\<rparr>),
                                      (1001, \<lparr>response = 1, request = [(''_cons'', Str ''help.getConfig'')]\<rparr>)],
                 pending_pongs := [(77, 0)],
                 pending_ping_request := Some 1,
                 futures := (\<lambda>_. Pending)(0 := Result []),
                 next_future := 2,
                 timers := [\<lparr>delay = 10, callback = Disconnect, cancelled = False\<rparr>,
                            \<lparr>delay = 10, callback = CreateNewPingRequestSync, cancelled = False\<rparr>],
                 next_msg_id := 1002\<rparr>"

subsection \<open>What a step leaves untouched\<close>

text \<open>\<open>session_kept restarted s s'\<close>: from \<open>s\<close> to \<open>s'\<close> the flag \<open>stable_seqno\<close> is the
  same, the ack buffer is the same or has been emptied, a future is as before, fresh or
  interrupted, and, unless the loop was restarted, the transport and the loop task are the
  same. \<open>carried_on\<close> adds that the outcome is not the usage error.\<close>

definition session_kept :: "bool \<Rightarrow> client \<Rightarrow> client \<Rightarrow> bool" where
  "session_kept restarted s s' =
     (stable_seqno s' = stable_seqno s
      \<and> (msgids_to_ack s' = msgids_to_ack s \<or> msgids_to_ack s' = [])
      \<and> (\<forall>f. futures s' f = futures s f \<or> futures s' f = Pending
               \<or> futures s' f = Exception InterruptedError)
      \<and> (\<not> restarted \<longrightarrow>
            mtproto s' = mtproto s \<and> mtproto_loop_task s' = mtproto_loop_task s))"

definition carried_on :: "bool \<Rightarrow> bool \<Rightarrow> client \<Rightarrow> 'a outcome \<times> client \<Rightarrow> bool" where
  "carried_on restarted ok s r =
     (session_kept restarted s (snd r) \<and> (ok \<longrightarrow> fst r \<noteq> Raise RuntimeError))"


definition salted_client :: client where
  "salted_client =
     init_client\<lparr>mtproto := Some \<lparr>server_salt = 5\<rparr>,
                 mtproto_loop_task := Some \<lparr>task_done = False\<rparr>,
                 stable_seqno := True, last_seqno := 1, seqno_increment := 2,
                 pending_requests :=
                   [(1000, \<lparr>response = 0, request = [(''_cons'', Str ''help.getConfig'')]\<rparr>)],
                 next_future := 1, written := [(1000, 1, [(''_cons'', Str ''help.getConfig'')])],
                 next_msg_id := 1001\<rparr>"

definition unsalted_client :: client where
  "unsalted_client = salted_client\<lparr>mtproto := Some \<lparr>server_salt = 0\<rparr>\<rparr>"

definition unstable_client :: client where
  "unstable_client =
     init_client\<lparr>mtproto := Some \<lparr>server_salt = 5\<rparr>,
                 mtproto_loop_task := Some \<lparr>task_done = False\<rparr>,
                 last_seqno := 1,
                 pending_requests :=
                   [(1000, \<lparr>response = 0, request = [(''_cons'', Str ''help.getConfig'')]\<rparr>)],
                 next_future := 1, written := [(1000, 1, [(''_cons'', Str ''help.getConfig'')])],
                 next_msg_id := 1001\<rparr>"

definition pinging_client :: client where
  "pinging_client = snd (start_mtproto_loop init_client)"

text \<open>\<^verbatim>\<open>body == "msg_container"\<close>\<close>

definition is_container :: "body \<Rightarrow> bool" where
  "is_container b = (case b of MsgContainer messages \<Rightarrow> True | _ \<Rightarrow> False)"


definition crowded_client :: client where
  "crowded_client = unstable_client\<lparr>msgids_to_ack := map int [1..<32]\<rparr>"

subsection \<open>What has been acknowledged\<close>









definition stable_crowded_client :: client where
  "stable_crowded_client =
     crowded_client\<lparr>stable_seqno := True, write_outcomes := [WriteInterrupted]\<rparr>"

definition content_update :: message where
  "content_update = Message 7001 1 (OtherBody ''updates'')"



section \<open>Properties\<close>

subsection \<open>Sequence allocator\<close>

lemma next_odd_above: "(n::int) < ((n + 1) div 2) * 2 + 1"
  by presburger

lemma next_even_above: "(n::int) < (n div 2 + 1) * 2"
  by presburger

lemma allocate_above: "last_seqno s < fst (allocate c s)"
  by (cases c) (simp_all add: allocate_def get_next_odd_seqno_def get_next_even_seqno_def
      next_odd_above next_even_above)

lemma allocate_parity: "right_parity c (fst (allocate c s))"
  by (cases c) (simp_all add: allocate_def right_parity_def get_next_odd_seqno_def
      get_next_even_seqno_def)

lemma allocate_last_seqno: "last_seqno (snd (allocate c s)) = fst (allocate c s)"
  by (cases c) (simp_all add: allocate_def get_next_odd_seqno_def get_next_even_seqno_def)

lemma allocations_above:
  "list_all (\<lambda>(before, c, v). last_seqno s < v) (allocations s cs)"
proof (induction cs arbitrary: s)
  case Nil
  show ?case by simp
next
  case (Cons c cs)
  obtain v s' where a: "allocate c s = (v, s')" by (cases "allocate c s")
  have lt: "last_seqno s < v" using allocate_above [of s c] a by simp
  have eq: "last_seqno s' = v" using allocate_last_seqno [of c s] a by simp
  have "list_all (\<lambda>(before, c, v). last_seqno s' < v) (allocations s' cs)"
    by (rule Cons.IH)
  then have "list_all (\<lambda>(before, c, v'). last_seqno s < v') (allocations s' cs)"
    using lt eq by (auto simp: list_all_iff)
  then show ?case using a lt by simp
qed

text \<open>
  C1. Whatever the starting \<open>last_seqno\<close> and however calls to \<^verbatim>\<open>_get_next_odd_seqno\<close> and
  \<^verbatim>\<open>_get_next_even_seqno\<close> are interleaved, every value returned is strictly greater than
  the \<open>last_seqno\<close> held before that call and has the parity asked for (odd for the odd
  call, even for the even call), and the values returned are strictly increasing.
\<close>

theorem allocator_increasing_and_parity:
  "list_all (\<lambda>(before, c, v). before < v \<and> right_parity c v) (allocations s cs)
   \<and> sorted_wrt (<) (map (\<lambda>(before, c, v). v) (allocations s cs))"
proof (induction cs arbitrary: s)
  case Nil
  show ?case by simp
next
  case (Cons c cs)
  obtain v s' where a: "allocate c s = (v, s')" by (cases "allocate c s")
  have lt: "last_seqno s < v" using allocate_above [of s c] a by simp
  have par: "right_parity c v" using allocate_parity [of c s] a by simp
  have eq: "last_seqno s' = v" using allocate_last_seqno [of c s] a by simp
  have above: "list_all (\<lambda>(before, c, v'). v < v') (allocations s' cs)"
    using allocations_above [of s' cs] eq by simp
  then have "\<forall>y \<in> set (map (\<lambda>(before, c, v). v) (allocations s' cs)). v < y"
    by (auto simp: list_all_iff)
  then show ?case using Cons.IH [of s'] a lt par by simp
qed

subsection \<open>Sequencing\<close>

lemma then_do_Return [simp]: "then_do (Return a, s) f = f a s"
  by (simp add: then_do_def)

lemma then_do_Raise [simp]: "then_do (Raise e, s) f = (Raise e, s)"
  by (simp add: then_do_def)

subsection \<open>Ack flush\<close>

text \<open>
  C5, as stated, fails: an invocation of \<^verbatim>\<open>_flush_msgids_to_ack\<close> that finds the buffer empty
  does move the \<open>last_flush\<close> instant, because the instant is taken first. Here the buffer
  is empty, the instant held is 0 and the clock reads 5.
\<close>

theorem flush_noop_moves_last_flush:
  "msgids_to_ack idle_flush_client = []
   \<and> last_time_acks_flushed (snd (flush_msgids_to_ack idle_flush_client))
       \<noteq> last_time_acks_flushed idle_flush_client"
  by (simp add: idle_flush_client_def init_client_def flush_msgids_to_ack_def)

text \<open>
  C5, amended. An invocation of \<^verbatim>\<open>_flush_msgids_to_ack\<close> that finds the ack buffer empty or
  \<open>stable_seqno\<close> false writes nothing and changes nothing but the \<open>last_flush\<close> instant,
  which it sets to the current time. An invocation with a non-empty buffer,
  \<open>stable_seqno\<close> true and a transport first sets \<open>last_flush\<close> to the current time, then
  writes one \<^verbatim>\<open>msgs_ack\<close> message carrying the buffered ids under a freshly allocated even
  seqno above \<open>last_seqno\<close>; when the write completes it clears the buffer, and when the
  write fails it raises and keeps the buffer.
\<close>

theorem flush_msgids_to_ack_effect:
  "(msgids_to_ack s = [] \<or> \<not> stable_seqno s \<longrightarrow>
      flush_msgids_to_ack s = (Return (), s\<lparr>last_time_acks_flushed := clock s\<rparr>))
   \<and> (msgids_to_ack s \<noteq> [] \<and> stable_seqno s \<and> mtproto s \<noteq> None \<longrightarrow>
        (let sq = (last_seqno s div 2 + 1) * 2;
             s1 = s\<lparr>last_time_acks_flushed := clock s, last_seqno := sq,
                    written := written s @
                      [(next_msg_id s, sq,
                        [(''_cons'', Str ''msgs_ack''), (''msg_ids'', NumList (msgids_to_ack s))])],
                    next_msg_id := next_msg_id s + 1,
                    write_outcomes := tl (write_outcomes s)\<rparr>
         in even sq \<and> last_seqno s < sq
            \<and> flush_msgids_to_ack s =
                (case next_write_outcome s of
                   WriteOk \<Rightarrow> (Return (), s1\<lparr>msgids_to_ack := []\<rparr>)
                 | WriteInterrupted \<Rightarrow> (Raise OSError, s1)
                 | WriteFailed \<Rightarrow> (Raise OtherWriteError, s1))))"
proof -
  have above: "last_seqno s < (last_seqno s div 2 + 1) * 2" by (rule next_even_above)
  show ?thesis
    using above
    by (auto simp: flush_msgids_to_ack_def get_next_even_seqno_def mtproto_write_def
          await_write_def next_write_outcome_def Let_def
          split: list.splits write_outcome.splits)
qed

theorem flush_msgids_to_ack_effect_witness:
  "flush_msgids_to_ack idle_flush_client
     = (Return (), idle_flush_client\<lparr>last_time_acks_flushed := 5\<rparr>)
   \<and> fst (flush_msgids_to_ack ready_flush_client) = Return ()
   \<and> msgids_to_ack (snd (flush_msgids_to_ack ready_flush_client)) = []
   \<and> written (snd (flush_msgids_to_ack ready_flush_client))
       = [(1000, 4, [(''_cons'', Str ''msgs_ack''), (''msg_ids'', NumList [11, 13])])]"
  using flush_msgids_to_ack_effect [of idle_flush_client]
    flush_msgids_to_ack_effect [of ready_flush_client]
  by (simp add: idle_flush_client_def ready_flush_client_def init_client_def
      next_write_outcome_def Let_def)

subsection \<open>Results of calls\<close>

text \<open>
  C3, as stated, fails: an \<^verbatim>\<open>rpc_result\<close> whose \<open>req_msg_id\<close> is not registered does change
  the session, since \<^verbatim>\<open>_process_rpc_result\<close> sets \<open>stable_seqno\<close> before it looks the id up.
  Here nothing is registered and \<open>stable_seqno\<close> is false before.
\<close>

theorem rpc_result_unregistered_sets_stable:
  "map_of (pending_requests init_client) 5 = None
   \<and> \<not> stable_seqno init_client
   \<and> stable_seqno (snd (process_rpc_result init_client 5 (Plain [])))"
  by (simp add: init_client_def process_rpc_result_def)

text \<open>
  C3, amended. Processing an \<^verbatim>\<open>rpc_result\<close> whose \<open>req_msg_id\<close> is not a key of the
  pending-request registry raises nothing and changes nothing but \<open>stable_seqno\<close>, which
  it sets to true: the registry and every response slot are as before. \<open>stable_seqno\<close> is
  true after every \<^verbatim>\<open>rpc_result\<close>, registered or not.
\<close>

theorem process_rpc_result_unregistered:
  "(map_of (pending_requests s) req_msg_id = None \<longrightarrow>
      process_rpc_result s req_msg_id res = (Return (), s\<lparr>stable_seqno := True\<rparr>))
   \<and> stable_seqno (snd (process_rpc_result s req_msg_id res))"
  by (auto simp: process_rpc_result_def set_result_def Let_def split: option.splits)

theorem process_rpc_result_unregistered_witness:
  "process_rpc_result init_client 5 (Plain [])
     = (Return (), init_client\<lparr>stable_seqno := True\<rparr>)"
  using process_rpc_result_unregistered [of init_client 5 "Plain []"]
  by (simp add: init_client_def)

subsection \<open>Clearing the registries\<close>

lemma delete_pending_pong_frame:
  "\<exists>ts. delete_pending_pong s k False = s\<lparr>timers := ts\<rparr>"
proof (cases "map_of (pending_pongs s) k")
  case None
  then have "delete_pending_pong s k False = s\<lparr>timers := timers s\<rparr>"
    by (simp add: delete_pending_pong_def)
  then show ?thesis by (rule exI)
next
  case (Some h)
  then have "delete_pending_pong s k False
               = s\<lparr>timers := (timers s)[h := (timers s ! h)\<lparr>cancelled := True\<rparr>]\<rparr>"
    by (simp add: delete_pending_pong_def cancel_timer_def)
  then show ?thesis by (rule exI)
qed

lemma fold_delete_pending_pong_frame:
  "\<exists>ts. fold (\<lambda>k s'. delete_pending_pong s' k False) ks s = s\<lparr>timers := ts\<rparr>"
proof (induction ks arbitrary: s)
  case Nil
  show ?case by (rule exI [of _ "timers s"]) simp
next
  case (Cons k ks)
  obtain t1 where a: "delete_pending_pong s k False = s\<lparr>timers := t1\<rparr>"
    using delete_pending_pong_frame by blast
  obtain ts where b: "fold (\<lambda>k s'. delete_pending_pong s' k False) ks (s\<lparr>timers := t1\<rparr>)
                        = s\<lparr>timers := t1\<rparr>\<lparr>timers := ts\<rparr>"
    using Cons.IH by blast
  have "fold (\<lambda>k s'. delete_pending_pong s' k False) (k # ks) s = s\<lparr>timers := ts\<rparr>"
    by (simp add: a b)
  then show ?case by (rule exI)
qed

lemma delete_pending_request_futures:
  "futures (delete_pending_request s k remove) f =
     (if futures s f = Pending
         \<and> (\<exists>p. map_of (pending_requests s) k = Some p \<and> response p = f)
      then Exception InterruptedError else futures s f)"
  by (simp add: delete_pending_request_def split: option.splits)

lemma delete_pending_request_frame:
  "\<exists>fs. delete_pending_request s k False = s\<lparr>futures := fs\<rparr>"
proof (cases "map_of (pending_requests s) k")
  case None
  then have "delete_pending_request s k False = s\<lparr>futures := futures s\<rparr>"
    by (simp add: delete_pending_request_def)
  then show ?thesis by (rule exI [of _ "futures s"])
next
  case (Some p)
  show ?thesis
  proof (cases "futures s (response p) = Pending")
    case True
    with Some have "delete_pending_request s k False
        = s\<lparr>futures := (futures s)(response p := Exception InterruptedError)\<rparr>"
      by (simp add: delete_pending_request_def)
    then show ?thesis by (rule exI [of _ "(futures s)(response p := Exception InterruptedError)"])
  next
    case False
    with Some have "delete_pending_request s k False = s\<lparr>futures := futures s\<rparr>"
      by (simp add: delete_pending_request_def)
    then show ?thesis by (rule exI [of _ "futures s"])
  qed
qed

lemma fold_delete_pending_request_frame:
  "\<exists>fs. fold (\<lambda>k s'. delete_pending_request s' k False) ks s = s\<lparr>futures := fs\<rparr>"
proof (induction ks arbitrary: s)
  case Nil
  show ?case by (rule exI [of _ "futures s"]) simp
next
  case (Cons k ks)
  obtain f1 where a: "delete_pending_request s k False = s\<lparr>futures := f1\<rparr>"
    using delete_pending_request_frame by blast
  obtain fs where b: "fold (\<lambda>k s'. delete_pending_request s' k False) ks (s\<lparr>futures := f1\<rparr>)
                        = s\<lparr>futures := f1\<rparr>\<lparr>futures := fs\<rparr>"
    using Cons.IH by blast
  have "fold (\<lambda>k s'. delete_pending_request s' k False) (k # ks) s = s\<lparr>futures := fs\<rparr>"
    by (simp add: a b)
  then show ?case by (rule exI [of _ fs])
qed

lemma fold_delete_pending_request_registry:
  "pending_requests (fold (\<lambda>k s'. delete_pending_request s' k False) ks s) = pending_requests s"
proof -
  obtain fs where "fold (\<lambda>k s'. delete_pending_request s' k False) ks s = s\<lparr>futures := fs\<rparr>"
    using fold_delete_pending_request_frame by blast
  then show ?thesis by simp
qed

lemma delete_pending_request_registry_kept:
  "pending_requests (delete_pending_request s k False) = pending_requests s"
  by (simp add: delete_pending_request_def split: option.splits)

lemma fold_delete_pending_request_futures_step:
  assumes "\<And>s. futures (fold (\<lambda>k s'. delete_pending_request s' k False) ks s) f =
     (if futures s f = Pending
         \<and> (\<exists>k \<in> set ks. \<exists>p. map_of (pending_requests s) k = Some p \<and> response p = f)
      then Exception InterruptedError else futures s f)"
  shows "futures (fold (\<lambda>k s'. delete_pending_request s' k False) (k # ks) s) f =
     (if futures s f = Pending
         \<and> (\<exists>k \<in> set (k # ks). \<exists>p. map_of (pending_requests s) k = Some p \<and> response p = f)
      then Exception InterruptedError else futures s f)"
proof -
  define s1 where "s1 = delete_pending_request s k False"
  define B where "B = (\<exists>p. map_of (pending_requests s) k = Some p \<and> response p = f)"
  define C where "C = (\<exists>k \<in> set ks. \<exists>p. map_of (pending_requests s) k = Some p \<and> response p = f)"
  have pr: "pending_requests s1 = pending_requests s"
    unfolding s1_def by (rule delete_pending_request_registry_kept)
  have f1: "futures s1 f = (if futures s f = Pending \<and> B then Exception InterruptedError else futures s f)"
    unfolding s1_def B_def by (rule delete_pending_request_futures)
  have step: "futures (fold (\<lambda>k s'. delete_pending_request s' k False) ks s1) f =
       (if futures s1 f = Pending \<and> C then Exception InterruptedError else futures s1 f)"
    unfolding C_def using assms [of s1] by (simp only: pr)
  have unf: "fold (\<lambda>k s'. delete_pending_request s' k False) (k # ks) s
               = fold (\<lambda>k s'. delete_pending_request s' k False) ks s1"
    by (simp add: s1_def)
  have bc: "(\<exists>k \<in> set (k # ks). \<exists>p. map_of (pending_requests s) k = Some p \<and> response p = f)
              = (B \<or> C)"
    unfolding B_def C_def by simp
  have "futures (fold (\<lambda>k s'. delete_pending_request s' k False) ks s1) f =
       (if futures s f = Pending \<and> (B \<or> C) then Exception InterruptedError else futures s f)"
    unfolding step f1 by auto
  then show ?thesis unfolding unf bc .
qed

lemma fold_delete_pending_request_futures:
  "futures (fold (\<lambda>k s'. delete_pending_request s' k False) ks s) f =
     (if futures s f = Pending
         \<and> (\<exists>k \<in> set ks. \<exists>p. map_of (pending_requests s) k = Some p \<and> response p = f)
      then Exception InterruptedError else futures s f)"
proof (induction ks arbitrary: s)
  case Nil
  show ?case by simp
next
  case (Cons k ks)
  show ?case by (rule fold_delete_pending_request_futures_step) (rule Cons.IH)
qed

lemma delete_all_pending_data_frame:
  "\<exists>ts. delete_all_pending_data s
      = s\<lparr>timers := ts, futures := interrupted_futures s, pending_pongs := [],
           pending_requests := [], pending_ping_request := None\<rparr>"
proof -
  obtain t1 where a: "fold (\<lambda>k s'. delete_pending_pong s' k False) (map fst (pending_pongs s)) s
                        = s\<lparr>timers := t1\<rparr>"
    using fold_delete_pending_pong_frame by blast
  define s1 where "s1 = s\<lparr>timers := t1, pending_pongs := []\<rparr>"
  obtain fs where b: "fold (\<lambda>k s'. delete_pending_request s' k False)
                         (map fst (pending_requests s1)) s1 = s1\<lparr>futures := fs\<rparr>"
    using fold_delete_pending_request_frame by blast
  have "fs f = interrupted_futures s f" for f
  proof -
    have "fs f = futures (fold (\<lambda>k s'. delete_pending_request s' k False)
                         (map fst (pending_requests s1)) s1) f"
      by (simp add: b)
    also have "\<dots> = interrupted_futures s f"
      unfolding fold_delete_pending_request_futures interrupted_futures_def
      by (simp add: s1_def)
    finally show ?thesis .
  qed
  then have fs: "fs = interrupted_futures s" by (rule ext)
  have c: "delete_all_pending_requests (delete_all_pending_pongs s)
             = s1\<lparr>futures := fs, pending_requests := []\<rparr>"
    using b by (simp add: delete_all_pending_requests_def delete_all_pending_pongs_def a s1_def)
  show ?thesis
  proof (cases "pending_ping_request s")
    case None
    then have "delete_all_pending_data s
      = s\<lparr>timers := t1, futures := interrupted_futures s, pending_pongs := [],
           pending_requests := [], pending_ping_request := None\<rparr>"
      by (simp add: delete_all_pending_data_def c s1_def fs)
    then show ?thesis by (rule exI [of _ t1])
  next
    case (Some h)
    then have "delete_all_pending_data s
      = s\<lparr>timers := t1[h := (t1 ! h)\<lparr>cancelled := True\<rparr>],
           futures := interrupted_futures s,
           pending_pongs := [], pending_requests := [], pending_ping_request := None\<rparr>"
      by (simp add: delete_all_pending_data_def c s1_def cancel_timer_def fs)
    then show ?thesis by (rule exI [of _ "t1[h := (t1 ! h)\<lparr>cancelled := True\<rparr>]"])
  qed
qed

lemma disconnected_fixed:
  assumes "pending_pongs s = []" "pending_requests s = []" "pending_ping_request s = None"
  shows "delete_all_pending_data s = s"
  using assms
  by (cases s)
     (simp add: delete_all_pending_data_def delete_all_pending_requests_def
        delete_all_pending_pongs_def)

subsection \<open>Disconnecting\<close>

lemma disconnect_twice:
  "disconnect (snd (disconnect s)) = disconnect s"
proof -
  obtain ts where a: "delete_all_pending_data s
      = s\<lparr>timers := ts, futures := interrupted_futures s, pending_pongs := [],
           pending_requests := [], pending_ping_request := None\<rparr>"
    using delete_all_pending_data_frame by blast
  let ?A = "s\<lparr>timers := ts, futures := interrupted_futures s, pending_pongs := [],
           pending_requests := [], pending_ping_request := None\<rparr>"
  show ?thesis
  proof (cases "mtproto s")
    case None
    let ?E = "?A\<lparr>mtproto := None, mtproto_loop_task := None\<rparr>"
    have d: "disconnect s = (Return (), ?E)"
      by (simp add: disconnect_def cancel_and_stop_def a None)
    have fx: "delete_all_pending_data ?E = ?E"
      by (rule disconnected_fixed) simp_all
    have "disconnect ?E = (Return (), ?E)"
      unfolding disconnect_def fx by (simp add: cancel_and_stop_def)
    then show ?thesis unfolding d by simp
  next
    case (Some t)
    show ?thesis
    proof (cases "mtproto_loop_task s")
      case None
      have d: "disconnect s = (Raise AttributeError, ?A)"
        by (simp add: disconnect_def cancel_and_stop_def a None Some)
      have fx: "delete_all_pending_data ?A = ?A"
        by (rule disconnected_fixed) simp_all
      have "disconnect ?A = (Raise AttributeError, ?A)"
        unfolding disconnect_def fx by (simp add: cancel_and_stop_def None Some)
      then show ?thesis unfolding d by simp
    next
      case tk: (Some tk)
      let ?E = "?A\<lparr>cancelled_tasks := cancelled_tasks s @ [tk],
                   stopped_transports := stopped_transports s @ [t],
                   mtproto := None, mtproto_loop_task := None\<rparr>"
      have d: "disconnect s = (Return (), ?E)"
        by (simp add: disconnect_def cancel_and_stop_def a tk Some)
      have fx: "delete_all_pending_data ?E = ?E"
        by (rule disconnected_fixed) simp_all
      have "disconnect ?E = (Return (), ?E)"
        unfolding disconnect_def fx by (simp add: cancel_and_stop_def)
      then show ?thesis unfolding d by simp
    qed
  qed
qed


text \<open>
  C8. \<^verbatim>\<open>disconnect()\<close> is idempotent: from any client, a second call returns or raises what
  the first did and leaves the client the first left. After a call the pending pongs,
  the pending requests and the next-ping timer are gone, and every response future that
  was registered and not yet resolved holds an interruption error (the others are as
  before). From a client that holds a loop task whenever it holds a transport, as the
  constructor, \<^verbatim>\<open>_start_mtproto_loop\<close> and \<^verbatim>\<open>disconnect\<close> leave it, the call raises nothing
  and clears the transport handle and the loop task, so the second call raises nothing
  either.
\<close>

theorem disconnect_idempotent:
  "disconnect (snd (disconnect s)) = disconnect s
   \<and> pending_pongs (snd (disconnect s)) = []
   \<and> pending_requests (snd (disconnect s)) = []
   \<and> pending_ping_request (snd (disconnect s)) = None
   \<and> futures (snd (disconnect s)) = interrupted_futures s
   \<and> (mtproto s = None \<or> mtproto_loop_task s \<noteq> None \<longrightarrow>
        fst (disconnect s) = Return ()
        \<and> mtproto (snd (disconnect s)) = None
        \<and> mtproto_loop_task (snd (disconnect s)) = None)"
proof -
  obtain ts where a: "delete_all_pending_data s
      = s\<lparr>timers := ts, futures := interrupted_futures s, pending_pongs := [],
           pending_requests := [], pending_ping_request := None\<rparr>"
    using delete_all_pending_data_frame by blast
  have "pending_pongs (snd (disconnect s)) = []"
    and "pending_requests (snd (disconnect s)) = []"
    and "pending_ping_request (snd (disconnect s)) = None"
    and "futures (snd (disconnect s)) = interrupted_futures s"
    by (simp_all add: disconnect_def cancel_and_stop_def a split: option.splits)
  moreover have "mtproto s = None \<or> mtproto_loop_task s \<noteq> None \<longrightarrow>
        fst (disconnect s) = Return ()
        \<and> mtproto (snd (disconnect s)) = None
        \<and> mtproto_loop_task (snd (disconnect s)) = None"
    by (auto simp: disconnect_def cancel_and_stop_def a split: option.splits)
  ultimately show ?thesis using disconnect_twice [of s] by simp
qed

theorem disconnect_idempotent_witness:
  "fst (disconnect busy_client) = Return ()
   \<and> fst (disconnect (snd (disconnect busy_client))) = Return ()
   \<and> snd (disconnect (snd (disconnect busy_client))) = snd (disconnect busy_client)
   \<and> mtproto (snd (disconnect busy_client)) = None
   \<and> pending_requests (snd (disconnect busy_client)) = []
   \<and> futures (snd (disconnect busy_client)) 0 = Result []
   \<and> futures (snd (disconnect busy_client)) 1 = Exception InterruptedError"
proof -
  have pre: "mtproto busy_client = None \<or> mtproto_loop_task busy_client \<noteq> None"
    by (simp add: busy_client_def init_client_def)
  have f0: "interrupted_futures busy_client 0 = Result []"
    by (simp add: interrupted_futures_def busy_client_def init_client_def)
  have f1: "interrupted_futures busy_client 1 = Exception InterruptedError"
    by (simp add: interrupted_futures_def busy_client_def init_client_def)
  show ?thesis
    using disconnect_idempotent [of busy_client] pre f0 f1 by auto
qed

subsection \<open>Frames of the session controller\<close>

lemma then_do_elim:
  assumes "then_do r f = (out, s')"
  obtains (raised) e where "r = (Raise e, s')" and "out = Raise e"
        | (returned) a s1 where "r = (Return a, s1)" and "f a s1 = (out, s')"
proof (cases r)
  case (Pair x s1)
  show ?thesis
  proof (cases x)
    case (Return a)
    with Pair assms returned show ?thesis by simp
  next
    case (Raise e)
    with Pair assms raised show ?thesis by simp
  qed
qed

lemma then_do_carried_on:
  assumes "carried_on b ok s r"
    and "\<And>a s1. r = (Return a, s1) \<Longrightarrow> carried_on b ok s (f a s1)"
  shows "carried_on b ok s (then_do r f)"
proof (cases r)
  case (Pair x s1)
  show ?thesis
  proof (cases x)
    case (Return a)
    with Pair assms(2) show ?thesis by simp
  next
    case (Raise e)
    with Pair assms(1) show ?thesis by (simp add: carried_on_def)
  qed
qed

lemma session_kept_refl: "session_kept b s s"
  by (simp add: session_kept_def)

lemma session_kept_trans:
  assumes "session_kept b s s1" and "session_kept b s1 s2"
  shows "session_kept b s s2"
proof -
  from assms(1) have f1: "\<And>f. futures s1 f = futures s f \<or> futures s1 f = Pending
          \<or> futures s1 f = Exception InterruptedError"
    and m1: "msgids_to_ack s1 = msgids_to_ack s \<or> msgids_to_ack s1 = []"
    and st1: "stable_seqno s1 = stable_seqno s"
    and t1: "\<not> b \<longrightarrow> mtproto s1 = mtproto s \<and> mtproto_loop_task s1 = mtproto_loop_task s"
    by (simp_all add: session_kept_def)
  from assms(2) have f2: "\<And>f. futures s2 f = futures s1 f \<or> futures s2 f = Pending
          \<or> futures s2 f = Exception InterruptedError"
    and m2: "msgids_to_ack s2 = msgids_to_ack s1 \<or> msgids_to_ack s2 = []"
    and st2: "stable_seqno s2 = stable_seqno s1"
    and t2: "\<not> b \<longrightarrow> mtproto s2 = mtproto s1 \<and> mtproto_loop_task s2 = mtproto_loop_task s1"
    by (simp_all add: session_kept_def)
  have "futures s2 f = futures s f \<or> futures s2 f = Pending
          \<or> futures s2 f = Exception InterruptedError" for f
    using f1 [of f] f2 [of f] by auto
  moreover have "msgids_to_ack s2 = msgids_to_ack s \<or> msgids_to_ack s2 = []"
    using m1 m2 by auto
  moreover have "stable_seqno s2 = stable_seqno s"
    using st1 st2 by simp
  moreover have "\<not> b \<longrightarrow> mtproto s2 = mtproto s \<and> mtproto_loop_task s2 = mtproto_loop_task s"
    using t1 t2 by simp
  ultimately show ?thesis by (simp add: session_kept_def)
qed

lemma session_kept_restarted: "session_kept False s s' \<Longrightarrow> session_kept b s s'"
  by (simp add: session_kept_def)

lemma carried_on_trans:
  "session_kept b s s1 \<Longrightarrow> carried_on b ok s1 r \<Longrightarrow> carried_on b ok s r"
  unfolding carried_on_def by (blast intro: session_kept_trans)

lemma carried_on_Return: "session_kept b s s1 \<Longrightarrow> carried_on b ok s (Return a, s1)"
  by (simp add: carried_on_def)

lemma flush_msgids_to_ack_carried_on: "carried_on b ok s (flush_msgids_to_ack s)"
  by (simp add: carried_on_def session_kept_def flush_msgids_to_ack_def get_next_even_seqno_def
      mtproto_write_def await_write_def Let_def then_do_def
      split: option.splits write_outcome.splits)

lemma mtproto_write_carried_on: "carried_on b ok s (mtproto_write s sq kw)"
  by (simp add: carried_on_def session_kept_def mtproto_write_def split: option.splits)

lemma delete_pending_request_kept: "session_kept b s (delete_pending_request s k remove)"
  by (simp add: session_kept_def delete_pending_request_def Let_def split: option.splits)

lemma delete_all_pending_data_kept: "session_kept b s (delete_all_pending_data s)"
proof -
  obtain ts where a: "delete_all_pending_data s
      = s\<lparr>timers := ts, futures := interrupted_futures s, pending_pongs := [],
           pending_requests := [], pending_ping_request := None\<rparr>"
    using delete_all_pending_data_frame by blast
  show ?thesis unfolding a by (simp add: session_kept_def interrupted_futures_def)
qed

lemma cancel_and_stop_carried_on: "carried_on b ok s (cancel_and_stop s)"
  by (simp add: carried_on_def session_kept_def cancel_and_stop_def split: option.splits)

lemma create_new_ping_request_carried_on: "carried_on b ok s (create_new_ping_request s)"
  by (simp add: carried_on_def session_kept_def create_new_ping_request_def randrange_def
      get_next_odd_seqno_def create_future_def call_later_def mtproto_write_def await_write_def
      Let_def then_do_def split: option.splits write_outcome.splits list.splits)


lemma start_mtproto_loop_carried_on: "carried_on True ok s (start_mtproto_loop s)"
  unfolding start_mtproto_loop_def
proof (rule then_do_carried_on)
  show "carried_on True ok s (cancel_and_stop (delete_all_pending_data s))"
    by (rule carried_on_trans [OF delete_all_pending_data_kept cancel_and_stop_carried_on])
next
  fix a s1
  assume r: "cancel_and_stop (delete_all_pending_data s) = (Return a, s1)"
  have "carried_on True ok s (cancel_and_stop (delete_all_pending_data s))"
    by (rule carried_on_trans [OF delete_all_pending_data_kept cancel_and_stop_carried_on])
  then have k1: "session_kept True s s1"
    by (simp add: r carried_on_def)
  let ?s2 = "s1\<lparr>mtproto := Some new_transport, mtproto_loop_task := Some \<lparr>task_done = False\<rparr>\<rparr>"
  have k2: "session_kept True s1 ?s2" by (simp add: session_kept_def)
  show "carried_on True ok s (create_new_ping_request ?s2)"
    by (rule carried_on_trans [OF session_kept_trans [OF k1 k2] create_new_ping_request_carried_on])
qed

lemma loop_not_running_run:
  "loop_not_running s = (out, s') \<Longrightarrow> s' = s \<and> out \<noteq> Raise RuntimeError"
  by (auto simp: loop_not_running_def split: option.splits)

lemma await_response_carried_on:
  "(ok \<longrightarrow> futures s f \<noteq> Exception RuntimeError) \<Longrightarrow> carried_on b ok s (await_response s f)"
  by (auto simp: carried_on_def session_kept_refl await_response_def split: future.splits)

lemma session_kept_future:
  "session_kept b s s' \<Longrightarrow> futures s f \<noteq> Exception RuntimeError
     \<Longrightarrow> futures s' f \<noteq> Exception RuntimeError"
proof -
  assume k: "session_kept b s s'" and f: "futures s f \<noteq> Exception RuntimeError"
  from k have "futures s' f = futures s f \<or> futures s' f = Pending
                 \<or> futures s' f = Exception InterruptedError"
    by (simp add: session_kept_def)
  with f show ?thesis by auto
qed

lemma internal_rpc_call_carried_on:
  assumes b: "b = (fst (loop_not_running s) \<noteq> Return False)"
    and fut: "ok \<longrightarrow> futures s (response pending) \<noteq> Exception RuntimeError"
  shows "carried_on b ok s (internal_rpc_call s pending no_response)"
  unfolding internal_rpc_call_def
proof (rule then_do_carried_on)
  show "carried_on b ok s (loop_not_running s)"
    using loop_not_running_run [of s] by (cases "loop_not_running s") (simp add: carried_on_def session_kept_refl)
next
  fix restart s0
  assume lnr: "loop_not_running s = (Return restart, s0)"
  then have s0: "s0 = s" using loop_not_running_run by blast
  have br: "b = restart" using b lnr by simp
  have start: "carried_on b ok s (if restart then start_mtproto_loop s0 else (Return (), s0))"
    unfolding s0 br by (simp add: start_mtproto_loop_carried_on carried_on_Return session_kept_refl)
  show "carried_on b ok s
          (then_do (if restart then start_mtproto_loop s0 else (Return (), s0))
             (\<lambda>_ s1. then_do (flush_msgids_to_ack s1)
               (\<lambda>_ s2. let (sq, s3) = get_next_odd_seqno s2
                 in then_do (mtproto_write s3 sq (request pending))
                   (\<lambda>(message_id, w) s4.
                     case map_of (request pending) ''_cons'' of
                       None \<Rightarrow> (Raise KeyError, s4)
                     | Some constructor \<Rightarrow>
                         let s5 = s4\<lparr>pending_requests :=
                                       AList.update message_id pending (pending_requests s4)\<rparr>
                         in then_do
                              (case w of
                                 WriteOk \<Rightarrow> (Return (), s5)
                               | WriteInterrupted \<Rightarrow>
                                   (Return (), delete_pending_request s5 message_id True)
                               | WriteFailed \<Rightarrow> (Raise OtherWriteError, s5))
                              (\<lambda>_ s6.
                                 let s7 = s6\<lparr>seqno_increment := seqno_increment s6 + 1\<rparr>
                                 in if no_response
                                    then (Return NoResponse,
                                          snd (call_later s7 600 (DeletePendingRequest message_id)))
                                    else await_response s7 (response pending))))))"
  proof (rule then_do_carried_on [OF start])
    fix u s1
    assume "(if restart then start_mtproto_loop s0 else (Return (), s0)) = (Return u, s1)"
    with start have k1: "session_kept b s s1" by (simp add: carried_on_def)
    show "carried_on b ok s
            (then_do (flush_msgids_to_ack s1)
               (\<lambda>_ s2. let (sq, s3) = get_next_odd_seqno s2
                 in then_do (mtproto_write s3 sq (request pending))
                   (\<lambda>(message_id, w) s4.
                     case map_of (request pending) ''_cons'' of
                       None \<Rightarrow> (Raise KeyError, s4)
                     | Some constructor \<Rightarrow>
                         let s5 = s4\<lparr>pending_requests :=
                                       AList.update message_id pending (pending_requests s4)\<rparr>
                         in then_do
                              (case w of
                                 WriteOk \<Rightarrow> (Return (), s5)
                               | WriteInterrupted \<Rightarrow>
                                   (Return (), delete_pending_request s5 message_id True)
                               | WriteFailed \<Rightarrow> (Raise OtherWriteError, s5))
                              (\<lambda>_ s6.
                                 let s7 = s6\<lparr>seqno_increment := seqno_increment s6 + 1\<rparr>
                                 in if no_response
                                    then (Return NoResponse,
                                          snd (call_later s7 600 (DeletePendingRequest message_id)))
                                    else await_response s7 (response pending)))))"
    proof (rule then_do_carried_on)
      show "carried_on b ok s (flush_msgids_to_ack s1)"
        by (rule carried_on_trans [OF k1 flush_msgids_to_ack_carried_on])
    next
      fix u2 s2
      assume "flush_msgids_to_ack s1 = (Return u2, s2)"
      then have "session_kept b s1 s2"
        using flush_msgids_to_ack_carried_on [of b ok s1] by (simp add: carried_on_def)
      with k1 have k2: "session_kept b s s2" by (rule session_kept_trans)
      let ?s3 = "s2\<lparr>last_seqno := (last_seqno s2 + 1) div 2 * 2 + 1\<rparr>"
      have k3: "session_kept b s ?s3"
        by (rule session_kept_trans [OF k2]) (simp add: session_kept_def)
      have "carried_on b ok s
              (then_do (mtproto_write ?s3 (last_seqno ?s3) (request pending))
                 (\<lambda>(message_id, w) s4.
                     case map_of (request pending) ''_cons'' of
                       None \<Rightarrow> (Raise KeyError, s4)
                     | Some constructor \<Rightarrow>
                         let s5 = s4\<lparr>pending_requests :=
                                       AList.update message_id pending (pending_requests s4)\<rparr>
                         in then_do
                              (case w of
                                 WriteOk \<Rightarrow> (Return (), s5)
                               | WriteInterrupted \<Rightarrow>
                                   (Return (), delete_pending_request s5 message_id True)
                               | WriteFailed \<Rightarrow> (Raise OtherWriteError, s5))
                              (\<lambda>_ s6.
                                 let s7 = s6\<lparr>seqno_increment := seqno_increment s6 + 1\<rparr>
                                 in if no_response
                                    then (Return NoResponse,
                                          snd (call_later s7 600 (DeletePendingRequest message_id)))
                                    else await_response s7 (response pending))))"
      proof (rule then_do_carried_on)
        show "carried_on b ok s (mtproto_write ?s3 (last_seqno ?s3) (request pending))"
          by (rule carried_on_trans [OF k3 mtproto_write_carried_on])
      next
        fix a s4
        assume w: "mtproto_write ?s3 (last_seqno ?s3) (request pending) = (Return a, s4)"
        obtain message_id w where a: "a = (message_id, w)" by (cases a)
        have "session_kept b ?s3 s4"
          using mtproto_write_carried_on [of b ok ?s3 "last_seqno ?s3" "request pending"]
          unfolding w by (simp add: carried_on_def)
        with k3 have k4: "session_kept b s s4" by (rule session_kept_trans)
        let ?s5 = "s4\<lparr>pending_requests := AList.update message_id pending (pending_requests s4)\<rparr>"
        have k5: "session_kept b s ?s5"
          by (rule session_kept_trans [OF k4]) (simp add: session_kept_def)
        have k5': "session_kept b s (delete_pending_request ?s5 message_id True)"
          by (rule session_kept_trans [OF k5 delete_pending_request_kept])
        have tail: "carried_on b ok s
            (let s7 = s6\<lparr>seqno_increment := seqno_increment s6 + 1\<rparr>
             in if no_response
                then (Return NoResponse, snd (call_later s7 600 (DeletePendingRequest message_id)))
                else await_response s7 (response pending))"
          if k6: "session_kept b s s6" for s6
        proof -
          let ?s7 = "s6\<lparr>seqno_increment := seqno_increment s6 + 1\<rparr>"
          have k7: "session_kept b s ?s7"
            by (rule session_kept_trans [OF k6]) (simp add: session_kept_def)
          have k8: "session_kept b s (snd (call_later ?s7 600 (DeletePendingRequest message_id)))"
            by (rule session_kept_trans [OF k7]) (simp add: session_kept_def call_later_def)
          have "ok \<longrightarrow> futures ?s7 (response pending) \<noteq> Exception RuntimeError"
            using session_kept_future [OF k7] fut by blast
          then have "carried_on b ok s (await_response ?s7 (response pending))"
            by (rule carried_on_trans [OF k7 await_response_carried_on])
          then show ?thesis using k8 by (simp add: Let_def carried_on_Return)
        qed
        have "carried_on b ok s
            (then_do
               (case w of
                  WriteOk \<Rightarrow> (Return (), ?s5)
                | WriteInterrupted \<Rightarrow> (Return (), delete_pending_request ?s5 message_id True)
                | WriteFailed \<Rightarrow> (Raise OtherWriteError, ?s5))
               (\<lambda>_ s6.
                  let s7 = s6\<lparr>seqno_increment := seqno_increment s6 + 1\<rparr>
                  in if no_response
                     then (Return NoResponse,
                           snd (call_later s7 600 (DeletePendingRequest message_id)))
                     else await_response s7 (response pending)))"
        proof (cases w)
          case WriteOk
          then show ?thesis using tail [OF k5] by simp
        next
          case WriteInterrupted
          then show ?thesis using tail [OF k5'] by simp
        next
          case WriteFailed
          then show ?thesis using k5 by (simp add: carried_on_def)
        qed
        then show "carried_on b ok s
           ((case a of (message_id, w) \<Rightarrow> \<lambda>s4.
                     case map_of (request pending) ''_cons'' of
                       None \<Rightarrow> (Raise KeyError, s4)
                     | Some constructor \<Rightarrow>
                         let s5 = s4\<lparr>pending_requests :=
                                       AList.update message_id pending (pending_requests s4)\<rparr>
                         in then_do
                              (case w of
                                 WriteOk \<Rightarrow> (Return (), s5)
                               | WriteInterrupted \<Rightarrow>
                                   (Return (), delete_pending_request s5 message_id True)
                               | WriteFailed \<Rightarrow> (Raise OtherWriteError, s5))
                              (\<lambda>_ s6.
                                 let s7 = s6\<lparr>seqno_increment := seqno_increment s6 + 1\<rparr>
                                 in if no_response
                                    then (Return NoResponse,
                                          snd (call_later s7 600 (DeletePendingRequest message_id)))
                                    else await_response s7 (response pending))) s4)"
          using k4 unfolding a by (simp add: Let_def carried_on_def split: option.splits)
      qed
      then show "carried_on b ok s
           (let (sq, s3) = get_next_odd_seqno s2
                 in then_do (mtproto_write s3 sq (request pending))
                   (\<lambda>(message_id, w) s4.
                     case map_of (request pending) ''_cons'' of
                       None \<Rightarrow> (Raise KeyError, s4)
                     | Some constructor \<Rightarrow>
                         let s5 = s4\<lparr>pending_requests :=
                                       AList.update message_id pending (pending_requests s4)\<rparr>
                         in then_do
                              (case w of
                                 WriteOk \<Rightarrow> (Return (), s5)
                               | WriteInterrupted \<Rightarrow>
                                   (Return (), delete_pending_request s5 message_id True)
                               | WriteFailed \<Rightarrow> (Raise OtherWriteError, s5))
                              (\<lambda>_ s6.
                                 let s7 = s6\<lparr>seqno_increment := seqno_increment s6 + 1\<rparr>
                                 in if no_response
                                    then (Return NoResponse,
                                          snd (call_later s7 600 (DeletePendingRequest message_id)))
                                    else await_response s7 (response pending))))"
        by (simp add: get_next_odd_seqno_def Let_def)
    qed
  qed
qed


subsection \<open>Usage error\<close>

text \<open>
  C7. \<^verbatim>\<open>rpc_call\<close> raises the usage error (\<^verbatim>\<open>RuntimeError\<close>) if and only if the key
  \<^verbatim>\<open>"_cons"\<close> is absent from the request mapping, and in that case it raises before doing
  anything else: the client is unchanged.
\<close>

theorem rpc_call_usage_error:
  "(fst (rpc_call s message) = Raise RuntimeError) = (map_of message ''_cons'' = None)
   \<and> (map_of message ''_cons'' = None \<longrightarrow> rpc_call s message = (Raise RuntimeError, s))"
proof (cases "map_of message ''_cons''")
  case None
  then show ?thesis by (simp add: rpc_call_def)
next
  case (Some c)
  let ?s1 = "snd (create_future s)"
  let ?p = "\<lparr>response = next_future s, request = message\<rparr>"
  have "futures ?s1 (response ?p) \<noteq> Exception RuntimeError"
    by (simp add: create_future_def)
  then have "carried_on (fst (loop_not_running ?s1) \<noteq> Return False) True ?s1
               (internal_rpc_call ?s1 ?p False)"
    by (intro internal_rpc_call_carried_on) simp_all
  then have "fst (internal_rpc_call ?s1 ?p False) \<noteq> Raise RuntimeError"
    by (simp add: carried_on_def)
  then show ?thesis using Some by (simp add: rpc_call_def create_future_def)
qed

theorem rpc_call_usage_error_witness:
  "rpc_call init_client [(''ping_id'', Num 7)] = (Raise RuntimeError, init_client)
   \<and> fst (rpc_call init_client [(''_cons'', Str ''help.getConfig'')]) \<noteq> Raise RuntimeError"
  using rpc_call_usage_error [of init_client "[(''ping_id'', Num 7)]"]
    rpc_call_usage_error [of init_client "[(''_cons'', Str ''help.getConfig'')]"]
  by simp

subsection \<open>Bad server salt\<close>

lemma resend_bad_request_kept:
  "session_kept (fst (loop_not_running s) \<noteq> Return False) s (snd (resend_bad_request s bad_msg_id))"
proof (cases "map_of (pending_requests s) bad_msg_id")
  case None
  then show ?thesis by (simp add: resend_bad_request_def session_kept_refl)
next
  case (Some p)
  let ?b = "fst (loop_not_running s) \<noteq> Return False"
  let ?s1 = "s\<lparr>pending_requests := AList.delete bad_msg_id (pending_requests s)\<rparr>"
  have same: "loop_not_running ?s1 = (fst (loop_not_running s), ?s1)"
    by (simp add: loop_not_running_def split: option.splits)
  have "carried_on ?b False ?s1 (internal_rpc_call ?s1 p True)"
    by (rule internal_rpc_call_carried_on) (simp_all add: same)
  then have "session_kept ?b ?s1 (snd (internal_rpc_call ?s1 p True))"
    by (simp add: carried_on_def)
  moreover have "session_kept ?b s ?s1" by (simp add: session_kept_def)
  ultimately have "session_kept ?b s (snd (internal_rpc_call ?s1 p True))"
    using session_kept_trans by blast
  moreover have "snd (resend_bad_request s bad_msg_id) = snd (internal_rpc_call ?s1 p True)"
    by (cases "internal_rpc_call ?s1 p True"; cases "fst (internal_rpc_call ?s1 p True)")
       (simp_all add: resend_bad_request_def Some)
  ultimately show ?thesis by simp
qed

text \<open>
  C4. When \<^verbatim>\<open>_process_bad_server_salt\<close> runs on a client whose read loop is running,
  \<open>stable_seqno\<close> is afterwards false exactly when it was false before or the salt held by
  the transport before the update was non-zero (with a zero salt it is unchanged), and in
  every case, whatever the re-submission does, the transport holds the server-supplied
  \<open>new_server_salt\<close>.
\<close>

theorem process_bad_server_salt_effect:
  assumes "mtproto s = Some t" and "mtproto_loop_task s = Some tk" and "\<not> task_done tk"
  shows "stable_seqno (snd (process_bad_server_salt s bad_msg_id new_server_salt))
           = (stable_seqno s \<and> server_salt t = 0)
         \<and> mtproto (snd (process_bad_server_salt s bad_msg_id new_server_salt))
           = Some (t\<lparr>server_salt := new_server_salt\<rparr>)"
proof -
  let ?s1 = "if server_salt t \<noteq> 0 then s\<lparr>stable_seqno := False\<rparr> else s"
  let ?s2 = "?s1\<lparr>mtproto := Some (t\<lparr>server_salt := new_server_salt\<rparr>)\<rparr>"
  have run: "process_bad_server_salt s bad_msg_id new_server_salt = resend_bad_request ?s2 bad_msg_id"
    using assms(1) by (simp add: process_bad_server_salt_def Let_def)
  have "fst (loop_not_running ?s2) = Return False"
    using assms by (simp add: loop_not_running_def)
  then have "session_kept False ?s2 (snd (resend_bad_request ?s2 bad_msg_id))"
    using resend_bad_request_kept [of ?s2 bad_msg_id] by simp
  then show ?thesis unfolding run by (simp add: session_kept_def)
qed


theorem process_bad_server_salt_effect_witness:
  "\<not> stable_seqno (snd (process_bad_server_salt salted_client 1000 43981))
   \<and> mtproto (snd (process_bad_server_salt salted_client 1000 43981))
       = Some \<lparr>server_salt = 43981\<rparr>
   \<and> stable_seqno (snd (process_bad_server_salt unsalted_client 1000 43981))
   \<and> mtproto (snd (process_bad_server_salt unsalted_client 1000 43981))
       = Some \<lparr>server_salt = 43981\<rparr>"
  using process_bad_server_salt_effect [where s = salted_client and t = "\<lparr>server_salt = 5\<rparr>"
      and tk = "\<lparr>task_done = False\<rparr>" and bad_msg_id = 1000 and new_server_salt = 43981]
    process_bad_server_salt_effect [where s = unsalted_client and t = "\<lparr>server_salt = 0\<rparr>"
      and tk = "\<lparr>task_done = False\<rparr>" and bad_msg_id = 1000 and new_server_salt = 43981]
  by (simp add: salted_client_def unsalted_client_def init_client_def)

subsection \<open>Seqno too low\<close>

text \<open>
  C2, as stated, fails: the re-submission goes through \<^verbatim>\<open>_rpc_call\<close>, which allocates the
  next odd seqno and adds 1 to \<open>seqno_increment\<close>. From \<open>stable_seqno\<close> false and
  \<open>seqno_increment\<close> 1, with the request 1000 pending, the first error-32 notification
  leaves \<open>seqno_increment\<close> at 3 and \<open>last_seqno\<close> advanced by 4, the request registered under
  1001, and a second notification for 1001 leaves \<open>seqno_increment\<close> at 7.
\<close>

theorem seqno_too_low_twice:
  "\<not> stable_seqno unstable_client \<and> seqno_increment unstable_client = 1
   \<and> seqno_increment (snd (process_bad_msg_notification_msg_seqno_too_low unstable_client 1000)) = 3
   \<and> last_seqno (snd (process_bad_msg_notification_msg_seqno_too_low unstable_client 1000))
       = last_seqno unstable_client + 4
   \<and> map_of (pending_requests
         (snd (process_bad_msg_notification_msg_seqno_too_low unstable_client 1000))) 1001
       = Some \<lparr>response = 0, request = [(''_cons'', Str ''help.getConfig'')]\<rparr>
   \<and> seqno_increment
        (snd (process_bad_msg_notification_msg_seqno_too_low
               (snd (process_bad_msg_notification_msg_seqno_too_low unstable_client 1000)) 1001))
       = 7"
  by (simp add: unstable_client_def init_client_def
      process_bad_msg_notification_msg_seqno_too_low_def resend_bad_request_def
      internal_rpc_call_def loop_not_running_def flush_msgids_to_ack_def get_next_odd_seqno_def
      mtproto_write_def next_write_outcome_def call_later_def Let_def)

text \<open>
  C2, amended. While the read loop is running and \<open>stable_seqno\<close> is false,
  \<^verbatim>\<open>_process_bad_msg_notification_msg_seqno_too_low\<close> sets \<open>seqno_increment\<close> to
  \<open>min (2^31 - 1) (seqno_increment << 1)\<close> and advances \<open>last_seqno\<close> by exactly that new
  value. When \<open>bad_msg_id\<close> is not registered nothing else changes. When it is registered
  and the write completes, the request is re-sent in no-response mode: it is written
  under the next odd seqno above the advanced \<open>last_seqno\<close>, \<open>seqno_increment\<close> grows by one
  more, the same pending request (the same response slot) is registered under the new
  message id instead of \<open>bad_msg_id\<close>, and its removal is scheduled 600 seconds later.
\<close>

theorem process_bad_msg_notification_msg_seqno_too_low_effect:
  assumes "mtproto s = Some t" and "mtproto_loop_task s = Some tk" and "\<not> task_done tk"
    and "\<not> stable_seqno s"
  shows
    "(let inc = min (2 ^ 31 - 1) (seqno_increment s * 2);
          sq = ((last_seqno s + inc + 1) div 2) * 2 + 1
      in case map_of (pending_requests s) bad_msg_id of
           None \<Rightarrow>
             process_bad_msg_notification_msg_seqno_too_low s bad_msg_id
               = (Return (), s\<lparr>seqno_increment := inc, last_seqno := last_seqno s + inc\<rparr>)
         | Some p \<Rightarrow>
             map_of (request p) ''_cons'' \<noteq> None \<and> next_write_outcome s = WriteOk \<longrightarrow>
             process_bad_msg_notification_msg_seqno_too_low s bad_msg_id
               = (Return (),
                  s\<lparr>seqno_increment := inc + 1, last_seqno := sq,
                    last_time_acks_flushed := clock s,
                    pending_requests :=
                      AList.update (next_msg_id s) p
                        (AList.delete bad_msg_id (pending_requests s)),
                    written := written s @ [(next_msg_id s, sq, request p)],
                    next_msg_id := next_msg_id s + 1,
                    write_outcomes := tl (write_outcomes s),
                    timers := timers s @
                      [\<lparr>delay = 600, callback = DeletePendingRequest (next_msg_id s),
                        cancelled = False\<rparr>]\<rparr>))"
  using assms
  by (auto simp: process_bad_msg_notification_msg_seqno_too_low_def resend_bad_request_def
      internal_rpc_call_def loop_not_running_def flush_msgids_to_ack_def get_next_odd_seqno_def
      mtproto_write_def next_write_outcome_def call_later_def Let_def
      split: list.splits option.splits)

theorem process_bad_msg_notification_msg_seqno_too_low_effect_witness:
  "process_bad_msg_notification_msg_seqno_too_low unstable_client 999
     = (Return (), unstable_client\<lparr>seqno_increment := 2, last_seqno := 3\<rparr>)
   \<and> seqno_increment (snd (process_bad_msg_notification_msg_seqno_too_low unstable_client 1000))
       = 3
   \<and> last_seqno (snd (process_bad_msg_notification_msg_seqno_too_low unstable_client 1000)) = 5
   \<and> written (snd (process_bad_msg_notification_msg_seqno_too_low unstable_client 1000))
       = [(1000, 1, [(''_cons'', Str ''help.getConfig'')]),
          (1001, 5, [(''_cons'', Str ''help.getConfig'')])]"
  using process_bad_msg_notification_msg_seqno_too_low_effect
      [where s = unstable_client and t = "\<lparr>server_salt = 5\<rparr>"
         and tk = "\<lparr>task_done = False\<rparr>" and bad_msg_id = 999]
    process_bad_msg_notification_msg_seqno_too_low_effect
      [where s = unstable_client and t = "\<lparr>server_salt = 5\<rparr>"
         and tk = "\<lparr>task_done = False\<rparr>" and bad_msg_id = 1000]
  by (simp add: unstable_client_def init_client_def next_write_outcome_def Let_def)

subsection \<open>Response slots\<close>

text \<open>
  C9 does not hold of the code. \<^verbatim>\<open>_process_pong\<close> sets the result of the registered
  request's response slot without testing \<^verbatim>\<open>done()\<close> and without removing the
  registration, so a second pong for the same message id sets a result on a slot that is
  already resolved, which \<^verbatim>\<open>asyncio\<close> answers with \<^verbatim>\<open>InvalidStateError\<close>. Here the session
  has just been started (the ping is registered under 1000 with a pending slot) and the
  server's pong arrives twice.
\<close>

theorem repeated_pong_sets_resolved_slot:
  "map_of (pending_requests pinging_client) 1000
     = Some \<lparr>response = 0, request = [(''_cons'', Str ''ping''), (''ping_id'', Num 0)]\<rparr>
   \<and> futures pinging_client 0 = Pending
   \<and> fst (process_telegram_message pinging_client (Message 7001 1 (Pong 1000 0))) = Return ()
   \<and> futures (snd (process_telegram_message pinging_client (Message 7001 1 (Pong 1000 0)))) 0
       = Result []
   \<and> fst (process_telegram_message
            (snd (process_telegram_message pinging_client (Message 7001 1 (Pong 1000 0))))
            (Message 7003 3 (Pong 1000 0)))
       = Raise InvalidStateError"
  by (simp add: process_telegram_message.simps pinging_client_def init_client_def
      start_mtproto_loop_def
      delete_all_pending_data_def delete_all_pending_requests_def delete_all_pending_pongs_def
      cancel_and_stop_def new_transport_def create_new_ping_request_def randrange_def
      get_next_odd_seqno_def create_future_def call_later_def mtproto_write_def
      next_write_outcome_def await_write_def
      update_last_seqno_from_incoming_message_def unpacked_body_def
      process_telegram_message_body_def process_pong_def delete_pending_pong_def cancel_timer_def
      set_result_def acknowledge_telegram_message_def flush_msgids_to_ack_def Let_def)

subsection \<open>Acknowledging content messages\<close>

lemma flush_msgids_to_ack_returns:
  assumes "flush_msgids_to_ack x = (Return u, s')"
  shows "last_time_acks_flushed s' = clock s'"
    and "stable_seqno s' \<longrightarrow> msgids_to_ack s' = []"
  using assms
  by (auto simp: flush_msgids_to_ack_def get_next_even_seqno_def mtproto_write_def
      await_write_def Let_def then_do_def
      split: if_splits option.splits write_outcome.splits)

lemma process_telegram_message_leaf:
  "\<not> is_container (unpacked_body m) \<Longrightarrow>
     process_telegram_message s m =
       then_do (process_telegram_message_body (update_last_seqno_from_incoming_message s m)
                  (unpacked_body m))
         (\<lambda>_ s2. acknowledge_telegram_message s2 m)"
  by (cases "unpacked_body m") (simp_all add: is_container_def process_telegram_message.simps)

lemma process_telegram_message_body_buffer:
  "msgids_to_ack (snd (process_telegram_message_body s b)) = msgids_to_ack s
   \<or> msgids_to_ack (snd (process_telegram_message_body s b)) = []"
proof (cases b)
  case (RpcResult req res)
  then show ?thesis
    by (simp add: process_telegram_message_body_def process_rpc_result_def set_result_def Let_def
        split: option.splits)
next
  case (Pong mid pid)
  then show ?thesis
    by (simp add: process_telegram_message_body_def process_pong_def set_result_def Let_def
        delete_pending_pong_def cancel_timer_def call_later_def
        split: option.splits)
next
  case (BadServerSalt bad salt)
  show ?thesis
  proof (cases "mtproto s")
    case None
    then show ?thesis
      by (simp add: BadServerSalt process_telegram_message_body_def process_bad_server_salt_def)
  next
    case (Some t)
    let ?s2 = "(if server_salt t \<noteq> 0 then s\<lparr>stable_seqno := False\<rparr> else s)
                 \<lparr>mtproto := Some (t\<lparr>server_salt := salt\<rparr>)\<rparr>"
    have "session_kept (fst (loop_not_running ?s2) \<noteq> Return False) ?s2
            (snd (resend_bad_request ?s2 bad))"
      by (rule resend_bad_request_kept)
    then have "msgids_to_ack (snd (resend_bad_request ?s2 bad)) = msgids_to_ack ?s2
               \<or> msgids_to_ack (snd (resend_bad_request ?s2 bad)) = []"
      by (simp add: session_kept_def)
    then show ?thesis
      by (cases "server_salt t = 0")
         (simp_all add: BadServerSalt Some process_telegram_message_body_def
            process_bad_server_salt_def Let_def)
  qed
next
  case (BadMsgNotification bad code)
  let ?s2 = "s\<lparr>seqno_increment := min (2 ^ 31 - 1) (seqno_increment s * 2),
               last_seqno := last_seqno s + min (2 ^ 31 - 1) (seqno_increment s * 2)\<rparr>"
  have "session_kept (fst (loop_not_running ?s2) \<noteq> Return False) ?s2
          (snd (resend_bad_request ?s2 bad))"
    by (rule resend_bad_request_kept)
  then have "msgids_to_ack (snd (resend_bad_request ?s2 bad)) = msgids_to_ack ?s2
             \<or> msgids_to_ack (snd (resend_bad_request ?s2 bad)) = []"
    by (simp add: session_kept_def)
  then show ?thesis
    by (simp add: BadMsgNotification process_telegram_message_body_def
        process_bad_msg_notification_msg_seqno_too_low_def Let_def)
qed (simp_all add: process_telegram_message_body_def)

subsection \<open>Which messages are acknowledged\<close>

lemma then_do_ReturnE:
  assumes "then_do r f = (Return b, s')"
  obtains a s1 where "r = (Return a, s1)" and "f a s1 = (Return b, s')"
  using assms by (rule then_do_elim) simp_all





lemma next_odd_is_odd: "odd (((n::int) + 1) div 2 * 2 + 1)"
  by simp




















subsection \<open>The flush after a content message\<close>

lemma flush_msgids_to_ack_stable:
  assumes "msgids_to_ack x \<noteq> []" and "stable_seqno x" and "mtproto x \<noteq> None"
  shows "written (snd (flush_msgids_to_ack x))
           = written x @ [(next_msg_id x, (last_seqno x div 2 + 1) * 2,
                [(''_cons'', Str ''msgs_ack''), (''msg_ids'', NumList (msgids_to_ack x))])]"
    and "next_write_outcome x = WriteOk \<Longrightarrow>
           fst (flush_msgids_to_ack x) = Return () \<and> msgids_to_ack (snd (flush_msgids_to_ack x)) = []"
    and "next_write_outcome x \<noteq> WriteOk \<Longrightarrow>
           fst (flush_msgids_to_ack x) \<noteq> Return ()
           \<and> msgids_to_ack (snd (flush_msgids_to_ack x)) = msgids_to_ack x"
  using assms
  by (auto simp: flush_msgids_to_ack_def get_next_even_seqno_def mtproto_write_def
      await_write_def next_write_outcome_def Let_def
      split: list.splits write_outcome.splits)

lemma flush_msgids_to_ack_stamps:
  "last_time_acks_flushed (snd (flush_msgids_to_ack x)) = clock x"
  by (auto simp: flush_msgids_to_ack_def get_next_even_seqno_def mtproto_write_def
      await_write_def Let_def then_do_def
      split: option.splits write_outcome.splits)

lemma flush_msgids_to_ack_unstable:
  "\<not> stable_seqno x \<Longrightarrow>
     flush_msgids_to_ack x = (Return (), x\<lparr>last_time_acks_flushed := clock x\<rparr>)"
  by (simp add: flush_msgids_to_ack_def)

text \<open>
  C10, as stated, fails in its last part: the buffer does reach 32 entries while
  \<open>stable_seqno\<close> is true. The id is appended before the flush, and a flush whose write
  fails raises before it clears the buffer; the read loop logs the exception and goes on.
  Here \<open>stable_seqno\<close> is true, 31 ids are buffered and the write of the flush fails: after
  one turn of the loop on a content message 32 ids are buffered and \<open>stable_seqno\<close> is
  still true.
\<close>

theorem threshold_reached_while_stable:
  "stable_seqno stable_crowded_client
   \<and> length (msgids_to_ack stable_crowded_client) = 31
   \<and> length (msgids_to_ack (mtproto_loop_step stable_crowded_client content_update)) = 32
   \<and> stable_seqno (mtproto_loop_step stable_crowded_client content_update)"
  by (simp add: mtproto_loop_step_def content_update_def process_telegram_message.simps
      stable_crowded_client_def crowded_client_def unstable_client_def
      init_client_def update_last_seqno_from_incoming_message_def unpacked_body_def
      process_telegram_message_body_def acknowledge_telegram_message_def
      flush_msgids_to_ack_def get_next_even_seqno_def mtproto_write_def next_write_outcome_def
      await_write_def Let_def)

text \<open>
  C10, amended. A non-container message with an odd seqno whose handler returns is
  followed at once by an unconditional flush of the buffer with its id appended, whatever
  the size of the buffer and the time of the last flush: the \<open>last_flush\<close> instant becomes
  the current time; with \<open>stable_seqno\<close> false the id just stays in the buffer; with
  \<open>stable_seqno\<close> true and a transport, one \<^verbatim>\<open>msgs_ack\<close> carrying the whole buffer, the new
  id included, is written under the next even seqno, and the buffer is empty afterwards
  when that write completes, while the dispatch raises and the buffer keeps every id when
  the write fails. Hence the dispatch of a non-container message can take the buffer from
  under 32 entries to 32 or more only while \<open>stable_seqno\<close> is false or by raising (a
  flush that failed).
\<close>

theorem content_message_flush:
  assumes leaf: "\<not> is_container (unpacked_body m)"
  shows
    "(let handled = process_telegram_message_body
                      (update_last_seqno_from_incoming_message s m) (unpacked_body m);
          s2 = snd handled;
          buf = msgids_to_ack s2 @ [msg_id m];
          r = process_telegram_message s m
      in (seqno m mod 2 = 1 \<and> fst handled = Return () \<longrightarrow>
            r = flush_msgids_to_ack (s2\<lparr>msgids_to_ack := buf\<rparr>)
            \<and> last_time_acks_flushed (snd r) = clock s2
            \<and> (\<not> stable_seqno s2 \<longrightarrow>
                  r = (Return (), s2\<lparr>msgids_to_ack := buf,
                                      last_time_acks_flushed := clock s2\<rparr>))
            \<and> (stable_seqno s2 \<and> mtproto s2 \<noteq> None \<longrightarrow>
                  written (snd r)
                    = written s2 @ [(next_msg_id s2, (last_seqno s2 div 2 + 1) * 2,
                         [(''_cons'', Str ''msgs_ack''), (''msg_ids'', NumList buf)])]
                  \<and> (next_write_outcome s2 = WriteOk \<longrightarrow>
                        fst r = Return () \<and> msgids_to_ack (snd r) = [])
                  \<and> (next_write_outcome s2 \<noteq> WriteOk \<longrightarrow>
                        fst r \<noteq> Return () \<and> msgids_to_ack (snd r) = buf)))
       \<and> (length (msgids_to_ack s) < 32 \<and> 32 \<le> length (msgids_to_ack (snd r))
            \<and> stable_seqno (snd r) \<longrightarrow> fst r \<noteq> Return ()))"
proof -
  let ?s1 = "update_last_seqno_from_incoming_message s m"
  let ?handled = "process_telegram_message_body ?s1 (unpacked_body m)"
  let ?s2 = "snd ?handled"
  let ?buf = "msgids_to_ack ?s2 @ [msg_id m]"
  let ?x = "?s2\<lparr>msgids_to_ack := ?buf\<rparr>"
  let ?r = "process_telegram_message s m"
  have run: "?r = then_do ?handled (\<lambda>_ s2. acknowledge_telegram_message s2 m)"
    by (rule process_telegram_message_leaf [OF leaf])
  have first: "?r = flush_msgids_to_ack ?x
            \<and> last_time_acks_flushed (snd ?r) = clock ?s2
            \<and> (\<not> stable_seqno ?s2 \<longrightarrow>
                  ?r = (Return (), ?s2\<lparr>msgids_to_ack := ?buf,
                                      last_time_acks_flushed := clock ?s2\<rparr>))
            \<and> (stable_seqno ?s2 \<and> mtproto ?s2 \<noteq> None \<longrightarrow>
                  written (snd ?r)
                    = written ?s2 @ [(next_msg_id ?s2, (last_seqno ?s2 div 2 + 1) * 2,
                         [(''_cons'', Str ''msgs_ack''), (''msg_ids'', NumList ?buf)])]
                  \<and> (next_write_outcome ?s2 = WriteOk \<longrightarrow>
                        fst ?r = Return () \<and> msgids_to_ack (snd ?r) = [])
                  \<and> (next_write_outcome ?s2 \<noteq> WriteOk \<longrightarrow>
                        fst ?r \<noteq> Return () \<and> msgids_to_ack (snd ?r) = ?buf))"
    if odd: "seqno m mod 2 = 1" and ret: "fst ?handled = Return ()"
  proof -
    have h: "?handled = (Return (), ?s2)" using ret by (simp add: prod_eq_iff)
    have eq: "?r = flush_msgids_to_ack ?x"
      unfolding run by (subst h) (simp add: acknowledge_telegram_message_def odd)
    have stamp: "last_time_acks_flushed (snd ?r) = clock ?s2"
      unfolding eq by (simp add: flush_msgids_to_ack_stamps)
    have unst: "\<not> stable_seqno ?s2 \<longrightarrow>
                  ?r = (Return (), ?s2\<lparr>msgids_to_ack := ?buf,
                                      last_time_acks_flushed := clock ?s2\<rparr>)"
      unfolding eq by (simp add: flush_msgids_to_ack_unstable)
    have st: "stable_seqno ?s2 \<and> mtproto ?s2 \<noteq> None \<longrightarrow>
                  written (snd ?r)
                    = written ?s2 @ [(next_msg_id ?s2, (last_seqno ?s2 div 2 + 1) * 2,
                         [(''_cons'', Str ''msgs_ack''), (''msg_ids'', NumList ?buf)])]
                  \<and> (next_write_outcome ?s2 = WriteOk \<longrightarrow>
                        fst ?r = Return () \<and> msgids_to_ack (snd ?r) = [])
                  \<and> (next_write_outcome ?s2 \<noteq> WriteOk \<longrightarrow>
                        fst ?r \<noteq> Return () \<and> msgids_to_ack (snd ?r) = ?buf)"
    proof (intro impI)
      assume a: "stable_seqno ?s2 \<and> mtproto ?s2 \<noteq> None"
      have x1: "msgids_to_ack ?x \<noteq> []" and x2: "stable_seqno ?x" and x3: "mtproto ?x \<noteq> None"
        using a by simp_all
      have nw: "next_write_outcome ?x = next_write_outcome ?s2"
        by (simp add: next_write_outcome_def)
      show "written (snd ?r)
                    = written ?s2 @ [(next_msg_id ?s2, (last_seqno ?s2 div 2 + 1) * 2,
                         [(''_cons'', Str ''msgs_ack''), (''msg_ids'', NumList ?buf)])]
                  \<and> (next_write_outcome ?s2 = WriteOk \<longrightarrow>
                        fst ?r = Return () \<and> msgids_to_ack (snd ?r) = [])
                  \<and> (next_write_outcome ?s2 \<noteq> WriteOk \<longrightarrow>
                        fst ?r \<noteq> Return () \<and> msgids_to_ack (snd ?r) = ?buf)"
        unfolding eq
        using flush_msgids_to_ack_stable [OF x1 x2 x3] nw by simp
    qed
    show ?thesis using eq stamp unst st by blast
  qed
  have second: "fst ?r \<noteq> Return ()"
    if cross: "length (msgids_to_ack s) < 32" "32 \<le> length (msgids_to_ack (snd ?r))"
      and stable: "stable_seqno (snd ?r)"
  proof
    assume "fst ?r = Return ()"
    then have r: "?r = (Return (), snd ?r)" by (simp add: prod_eq_iff)
    then obtain u s2 where body: "?handled = (Return u, s2)"
      and ack: "acknowledge_telegram_message s2 m = (Return (), snd ?r)"
      unfolding run by (rule then_do_ReturnE)
    have buf: "msgids_to_ack s2 = msgids_to_ack s \<or> msgids_to_ack s2 = []"
      using process_telegram_message_body_buffer [of ?s1 "unpacked_body m"]
      unfolding body by (simp add: update_last_seqno_from_incoming_message_def)
    show False
    proof (cases "seqno m mod 2 = 1")
      case True
      with ack have "flush_msgids_to_ack (s2\<lparr>msgids_to_ack := msgids_to_ack s2 @ [msg_id m]\<rparr>)
                       = (Return (), snd ?r)"
        by (simp add: acknowledge_telegram_message_def)
      then have "stable_seqno (snd ?r) \<longrightarrow> msgids_to_ack (snd ?r) = []"
        by (rule flush_msgids_to_ack_returns)
      with stable cross show False by simp
    next
      case False
      with ack have "snd ?r = s2" by (simp add: acknowledge_telegram_message_def)
      with buf cross show False by auto
    qed
  qed
  show ?thesis
    unfolding Let_def using first second by blast
qed


theorem content_message_flush_witness:
  "process_telegram_message ready_flush_client content_update
     = flush_msgids_to_ack (ready_flush_client\<lparr>msgids_to_ack := [11, 13, 7001]\<rparr>)
   \<and> fst (process_telegram_message ready_flush_client content_update) = Return ()
   \<and> msgids_to_ack (snd (process_telegram_message ready_flush_client content_update)) = []
   \<and> written (snd (process_telegram_message ready_flush_client content_update))
       = [(1000, 4, [(''_cons'', Str ''msgs_ack''), (''msg_ids'', NumList [11, 13, 7001])])]
   \<and> last_time_acks_flushed (snd (process_telegram_message ready_flush_client content_update))
       = 5
   \<and> length (msgids_to_ack (snd (process_telegram_message crowded_client content_update))) = 32
   \<and> \<not> stable_seqno (snd (process_telegram_message crowded_client content_update))
   \<and> length (msgids_to_ack
        (snd (process_telegram_message stable_crowded_client content_update))) = 32
   \<and> stable_seqno (snd (process_telegram_message stable_crowded_client content_update))
   \<and> fst (process_telegram_message stable_crowded_client content_update) \<noteq> Return ()"
proof -
  have leaf: "\<not> is_container (unpacked_body content_update)"
    by (simp add: content_update_def is_container_def unpacked_body_def)
  have h1: "process_telegram_message_body
              (update_last_seqno_from_incoming_message ready_flush_client content_update)
              (unpacked_body content_update)
            = (Return (), ready_flush_client)"
    by (simp add: content_update_def unpacked_body_def process_telegram_message_body_def
        update_last_seqno_from_incoming_message_def ready_flush_client_def init_client_def)
  have h2: "process_telegram_message_body
              (update_last_seqno_from_incoming_message crowded_client content_update)
              (unpacked_body content_update)
            = (Return (), crowded_client)"
    by (simp add: content_update_def unpacked_body_def process_telegram_message_body_def
        update_last_seqno_from_incoming_message_def crowded_client_def unstable_client_def
        init_client_def)
  have h3: "process_telegram_message_body
              (update_last_seqno_from_incoming_message stable_crowded_client content_update)
              (unpacked_body content_update)
            = (Return (), stable_crowded_client)"
    by (simp add: content_update_def unpacked_body_def process_telegram_message_body_def
        update_last_seqno_from_incoming_message_def stable_crowded_client_def
        crowded_client_def unstable_client_def init_client_def)
  have odd: "seqno content_update mod 2 = 1" and mid: "msg_id content_update = 7001"
    by (simp_all add: content_update_def)
  have ready: "stable_seqno ready_flush_client" "mtproto ready_flush_client \<noteq> None"
    "next_write_outcome ready_flush_client = WriteOk"
    "msgids_to_ack ready_flush_client = [11, 13]" "clock ready_flush_client = 5"
    "written ready_flush_client = []" "next_msg_id ready_flush_client = 1000"
    "last_seqno ready_flush_client = 3"
    by (simp_all add: ready_flush_client_def init_client_def next_write_outcome_def)
  have crowded: "\<not> stable_seqno crowded_client" "length (msgids_to_ack crowded_client) = 31"
    by (simp_all add: crowded_client_def unstable_client_def init_client_def)
  have stable_crowded: "stable_seqno stable_crowded_client"
    "mtproto stable_crowded_client \<noteq> None"
    "next_write_outcome stable_crowded_client \<noteq> WriteOk"
    "length (msgids_to_ack stable_crowded_client) = 31"
    by (simp_all add: stable_crowded_client_def crowded_client_def unstable_client_def
        init_client_def next_write_outcome_def)
  note t1 = content_message_flush [OF leaf, of ready_flush_client,
      unfolded Let_def h1 snd_conv fst_conv]
  note t2 = content_message_flush [OF leaf, of crowded_client,
      unfolded Let_def h2 snd_conv fst_conv]
  note t3 = content_message_flush [OF leaf, of stable_crowded_client,
      unfolded Let_def h3 snd_conv fst_conv]
  have a1: "process_telegram_message ready_flush_client content_update
              = flush_msgids_to_ack
                  (ready_flush_client\<lparr>msgids_to_ack :=
                     msgids_to_ack ready_flush_client @ [msg_id content_update]\<rparr>)"
    and a2: "last_time_acks_flushed (snd (process_telegram_message ready_flush_client content_update))
              = clock ready_flush_client"
    and a3: "written (snd (process_telegram_message ready_flush_client content_update))
               = written ready_flush_client @
                   [(next_msg_id ready_flush_client, (last_seqno ready_flush_client div 2 + 1) * 2,
                     [(''_cons'', Str ''msgs_ack''),
                      (''msg_ids'', NumList (msgids_to_ack ready_flush_client
                                               @ [msg_id content_update]))])]"
    and a4: "fst (process_telegram_message ready_flush_client content_update) = Return ()
             \<and> msgids_to_ack (snd (process_telegram_message ready_flush_client content_update))
                   = []"
    using t1 odd ready(1,2,3) by blast+
  have b1: "process_telegram_message crowded_client content_update
              = (Return (),
                 crowded_client\<lparr>msgids_to_ack :=
                                  msgids_to_ack crowded_client @ [msg_id content_update],
                                last_time_acks_flushed := clock crowded_client\<rparr>)"
    using t2 odd crowded(1) by blast
  have c1: "fst (process_telegram_message stable_crowded_client content_update) \<noteq> Return ()
            \<and> msgids_to_ack (snd (process_telegram_message stable_crowded_client content_update))
                  = msgids_to_ack stable_crowded_client @ [msg_id content_update]"
    using t3 odd stable_crowded(1,2,3) by blast
  have st3: "stable_seqno (snd (process_telegram_message stable_crowded_client content_update))"
    by (simp add: process_telegram_message.simps content_update_def
        stable_crowded_client_def crowded_client_def unstable_client_def
        init_client_def update_last_seqno_from_incoming_message_def unpacked_body_def
        process_telegram_message_body_def acknowledge_telegram_message_def
        flush_msgids_to_ack_def get_next_even_seqno_def mtproto_write_def
        next_write_outcome_def await_write_def Let_def)
  have "process_telegram_message ready_flush_client content_update
          = flush_msgids_to_ack (ready_flush_client\<lparr>msgids_to_ack := [11, 13, 7001]\<rparr>)"
    using a1 by (simp add: ready mid)
  moreover have "written (snd (process_telegram_message ready_flush_client content_update))
       = [(1000, 4, [(''_cons'', Str ''msgs_ack''), (''msg_ids'', NumList [11, 13, 7001])])]"
    using a3 by (simp add: ready mid)
  moreover have "last_time_acks_flushed
        (snd (process_telegram_message ready_flush_client content_update)) = 5"
    using a2 by (simp add: ready)
  moreover have "length (msgids_to_ack
        (snd (process_telegram_message crowded_client content_update))) = 32"
    and "\<not> stable_seqno (snd (process_telegram_message crowded_client content_update))"
    by (simp_all add: b1 crowded)
  moreover have "length (msgids_to_ack
        (snd (process_telegram_message stable_crowded_client content_update))) = 32"
    using c1 by (simp add: stable_crowded)
  ultimately show ?thesis using a4 c1 st3 by simp
qed

end
